theory Spec2Isabelle
  imports Complex_Main "HOL-Library.Char_ord" "HOL-Library.List_Lexorder" "HOL-Library.AList"
begin

section \<open>JavaScript numbers\<close>

text \<open>
  A JavaScript number is modelled as an exact rational, or one of the three non-finite
  values. Arithmetic on finite values is exact: the rounding of IEEE doubles is not
  modelled, and the sign of zero is not kept. \<open>null\<close> and \<open>undefined\<close> are the value
  \<open>None\<close> of an option type.
\<close>

datatype jsnum = Fin rat | NaN | PInf | NInf

fun isFinite :: "jsnum \<Rightarrow> bool" where
  "isFinite (Fin r) = True"
| "isFinite _ = False"

fun jsneg :: "jsnum \<Rightarrow> jsnum" where
  "jsneg (Fin a) = Fin (- a)"
| "jsneg NaN = NaN"
| "jsneg PInf = NInf"
| "jsneg NInf = PInf"

fun jsadd :: "jsnum \<Rightarrow> jsnum \<Rightarrow> jsnum" where
  "jsadd (Fin a) (Fin b) = Fin (a + b)"
| "jsadd NaN y = NaN"
| "jsadd x NaN = NaN"
| "jsadd PInf NInf = NaN"
| "jsadd NInf PInf = NaN"
| "jsadd PInf y = PInf"
| "jsadd NInf y = NInf"
| "jsadd x PInf = PInf"
| "jsadd x NInf = NInf"

definition jssub :: "jsnum \<Rightarrow> jsnum \<Rightarrow> jsnum" where
  "jssub x y = jsadd x (jsneg y)"

text \<open>The infinity with the sign of a product or quotient: \<open>True\<close> is positive.\<close>

definition inf_of :: "bool \<Rightarrow> jsnum" where
  "inf_of pos = (if pos then PInf else NInf)"

fun jsmul :: "jsnum \<Rightarrow> jsnum \<Rightarrow> jsnum" where
  "jsmul (Fin a) (Fin b) = Fin (a * b)"
| "jsmul NaN y = NaN"
| "jsmul x NaN = NaN"
| "jsmul (Fin a) PInf = (if a = 0 then NaN else inf_of (0 < a))"
| "jsmul (Fin a) NInf = (if a = 0 then NaN else inf_of (a < 0))"
| "jsmul PInf (Fin b) = (if b = 0 then NaN else inf_of (0 < b))"
| "jsmul NInf (Fin b) = (if b = 0 then NaN else inf_of (b < 0))"
| "jsmul PInf PInf = PInf"
| "jsmul PInf NInf = NInf"
| "jsmul NInf PInf = NInf"
| "jsmul NInf NInf = PInf"

text \<open>
  Division by a zero divisor yields an infinity (or \<open>NaN\<close> for \<open>0 / 0\<close>), as in
  JavaScript; a zero divisor counts as \<open>+0\<close>.
\<close>

fun jsdiv :: "jsnum \<Rightarrow> jsnum \<Rightarrow> jsnum" where
  "jsdiv (Fin a) (Fin b) =
     (if b = 0 then (if a = 0 then NaN else inf_of (0 < a)) else Fin (a / b))"
| "jsdiv NaN y = NaN"
| "jsdiv x NaN = NaN"
| "jsdiv (Fin a) PInf = Fin 0"
| "jsdiv (Fin a) NInf = Fin 0"
| "jsdiv PInf (Fin b) = inf_of (0 \<le> b)"
| "jsdiv NInf (Fin b) = inf_of (b < 0)"
| "jsdiv PInf PInf = NaN"
| "jsdiv PInf NInf = NaN"
| "jsdiv NInf PInf = NaN"
| "jsdiv NInf NInf = NaN"

text \<open>\<open>ToNumber\<close> of a possibly-null number: \<open>null\<close> converts to \<open>0\<close>.\<close>

fun toNumber :: "jsnum option \<Rightarrow> jsnum" where
  "toNumber None = Fin 0"
| "toNumber (Some x) = x"

section \<open>Growth percentage\<close>

text \<open>
  \<^verbatim>\<open>function safeDiv(n, d) { if (d == null || d === 0) return null; return n / d; }\<close>
  \<^verbatim>\<open>function growthPct(curr, prev) { const r = safeDiv(curr - prev, prev);
     return r == null ? null : r * 100; }\<close>  (src/App.tsx)
\<close>

definition safeDiv :: "jsnum \<Rightarrow> jsnum option \<Rightarrow> jsnum option" where
  "safeDiv n d =
     (case d of
        None \<Rightarrow> None
      | Some dv \<Rightarrow> if dv = Fin 0 then None else Some (jsdiv n dv))"

definition growthPct :: "jsnum \<Rightarrow> jsnum option \<Rightarrow> jsnum option" where
  "growthPct c prev =
     (case safeDiv (jssub c (toNumber prev)) prev of
        None \<Rightarrow> None
      | Some r \<Rightarrow> Some (jsmul r (Fin 100)))"

text \<open>
  The second variant of the application (the shorter \<open>App\<close> file):
  \<^verbatim>\<open>function growthPct(curr, prev) { if (!prev) return null;
     return ((curr - prev) / prev) * 100; }\<close>
  \<open>!prev\<close> holds for \<open>null\<close>, \<open>undefined\<close>, \<open>0\<close> and \<open>NaN\<close>.
\<close>

definition falsy :: "jsnum option \<Rightarrow> bool" where
  "falsy v = (v = None \<or> v = Some (Fin 0) \<or> v = Some NaN)"

definition growthPct_short :: "jsnum \<Rightarrow> jsnum option \<Rightarrow> jsnum option" where
  "growthPct_short c prev =
     (if falsy prev then None
      else Some (jsmul (jsdiv (jssub c (toNumber prev)) (toNumber prev)) (Fin 100)))"

section \<open>Strings\<close>

text \<open>
  A \<open>string\<close> is a list of code units; a \<open>char\<close> stands for the code unit with the
  same number, so the model covers text whose code units are below 256. The white space
  that \<open>trim\<close> and \<open>Number\<close> strip is, in that range, TAB, LF, VT, FF, CR, SPACE and
  NBSP.
\<close>

definition isWhite :: "char \<Rightarrow> bool" where
  "isWhite c = ((of_char c :: nat) \<in> {9, 10, 11, 12, 13, 32, 160})"

definition trim :: "string \<Rightarrow> string" where
  "trim s = rev (dropWhile isWhite (rev (dropWhile isWhite s)))"

definition isDigit :: "char \<Rightarrow> bool" where
  "isDigit c = (48 \<le> (of_char c :: nat) \<and> (of_char c :: nat) \<le> 57)"

definition digitVal :: "char \<Rightarrow> nat" where
  "digitVal c = of_char c - 48"

definition digitChar :: "nat \<Rightarrow> char" where
  "digitChar n = (if n < 10 then ''0123456789'' ! n else CHR ''0'')"

text \<open>The value of a string of decimal digits, as \<open>Number\<close> reads it.\<close>

definition digitsVal :: "string \<Rightarrow> nat" where
  "digitsVal ds = foldl (\<lambda>acc c. acc * 10 + digitVal c) 0 ds"

text \<open>\<open>String(n)\<close> for a natural number \<open>n\<close>: its decimal digits, no leading zero.\<close>

fun showNat :: "nat \<Rightarrow> string" where
  "showNat n = (if n < 10 then [digitChar n] else showNat (n div 10) @ [digitChar (n mod 10)])"

declare showNat.simps [simp del]

text \<open>\<open>s.padStart(w, "0")\<close>\<close>

definition padStart0 :: "nat \<Rightarrow> string \<Rightarrow> string" where
  "padStart0 w s = replicate (w - length s) (CHR ''0'') @ s"

text \<open>\<open>s.split(c)\<close> for a one-character separator: never the empty list.\<close>

fun splitOn :: "char \<Rightarrow> string \<Rightarrow> string list" where
  "splitOn c [] = [[]]"
| "splitOn c (x # xs) =
     (if x = c then [] # splitOn c xs
      else (case splitOn c xs of w # ws \<Rightarrow> (x # w) # ws | [] \<Rightarrow> [[x]]))"

text \<open>\<open>text.split(/\r?\n/)\<close>: a line ends at LF or at CR LF; a lone CR does not end it.\<close>

fun splitLines :: "string \<Rightarrow> string list" where
  "splitLines [] = [[]]"
| "splitLines [x] = (if x = CHR 0x0A then [[], []] else [[x]])"
| "splitLines (x # y # xs) =
     (if x = CHR 0x0D \<and> y = CHR 0x0A then [] # splitLines xs
      else if x = CHR 0x0A then [] # splitLines (y # xs)
      else (case splitLines (y # xs) of w # ws \<Rightarrow> (x # w) # ws | [] \<Rightarrow> [[x]]))"

text \<open>
  \<open>toLowerCase\<close> on code units below 256: the letters A-Z and the Latin-1 capitals
  (0xC0 to 0xDE without the multiplication sign) move up by 32.
\<close>

definition upperChars :: string where
  "upperChars = ''ABCDEFGHIJKLMNOPQRSTUVWXYZ'' @
     [CHR 0xC0, CHR 0xC1, CHR 0xC2, CHR 0xC3, CHR 0xC4, CHR 0xC5, CHR 0xC6, CHR 0xC7, CHR 0xC8, CHR 0xC9, CHR 0xCA, CHR 0xCB, CHR 0xCC, CHR 0xCD, CHR 0xCE, CHR 0xCF, CHR 0xD0, CHR 0xD1, CHR 0xD2, CHR 0xD3, CHR 0xD4, CHR 0xD5, CHR 0xD6, CHR 0xD8, CHR 0xD9, CHR 0xDA, CHR 0xDB, CHR 0xDC, CHR 0xDD, CHR 0xDE]"

definition lowerChars :: string where
  "lowerChars = ''abcdefghijklmnopqrstuvwxyz'' @
     [CHR 0xE0, CHR 0xE1, CHR 0xE2, CHR 0xE3, CHR 0xE4, CHR 0xE5, CHR 0xE6, CHR 0xE7, CHR 0xE8, CHR 0xE9, CHR 0xEA, CHR 0xEB, CHR 0xEC, CHR 0xED, CHR 0xEE, CHR 0xEF, CHR 0xF0, CHR 0xF1, CHR 0xF2, CHR 0xF3, CHR 0xF4, CHR 0xF5, CHR 0xF6, CHR 0xF8, CHR 0xF9, CHR 0xFA, CHR 0xFB, CHR 0xFC, CHR 0xFD, CHR 0xFE]"

definition lowerChar :: "char \<Rightarrow> char" where
  "lowerChar c = (case map_of (zip upperChars lowerChars) c of Some l \<Rightarrow> l | None \<Rightarrow> c)"

definition toLowerCase :: "string \<Rightarrow> string" where
  "toLowerCase s = map lowerChar s"

fun includesStr :: "string \<Rightarrow> string \<Rightarrow> bool" where
  "includesStr [] sub = (sub = [])"
| "includesStr (x # xs) sub = (take (length sub) (x # xs) = sub \<or> includesStr xs sub)"

section \<open>Number(string)\<close>

text \<open>
  The standard's \<open>StringToNumber\<close>: white space is stripped; the empty string is \<open>0\<close>;
  otherwise the text is a signed decimal literal (digits, optional fraction, optional
  exponent, or \<open>Infinity\<close>) or an unsigned \<open>0x\<close>, \<open>0o\<close>, \<open>0b\<close> integer; anything else is
  \<open>NaN\<close>. The result is exact, except that a magnitude that a double cannot hold
  becomes an infinity and one that rounds to zero becomes \<open>0\<close>.
\<close>

definition toDouble :: "rat \<Rightarrow> jsnum" where
  "toDouble v =
     (if 2 ^ 1024 - 2 ^ 970 \<le> \<bar>v\<bar> then inf_of (0 < v)
      else if \<bar>v\<bar> \<le> 1 / 2 ^ 1075 then Fin 0
      else Fin v)"

definition allDigits :: "string \<Rightarrow> bool" where
  "allDigits ds = (ds \<noteq> [] \<and> list_all isDigit ds)"

definition baseDigitVal :: "char \<Rightarrow> nat option" where
  "baseDigitVal c =
     (let n = (of_char c :: nat)
      in if 48 \<le> n \<and> n \<le> 57 then Some (n - 48)
         else if 97 \<le> n \<and> n \<le> 102 then Some (n - 87)
         else if 65 \<le> n \<and> n \<le> 70 then Some (n - 55)
         else None)"

fun baseVal :: "nat \<Rightarrow> nat \<Rightarrow> string \<Rightarrow> nat option" where
  "baseVal b acc [] = Some acc"
| "baseVal b acc (c # cs) =
     (case baseDigitVal c of
        None \<Rightarrow> None
      | Some v \<Rightarrow> if v < b then baseVal b (acc * b + v) cs else None)"

definition nonDecimal :: "string \<Rightarrow> nat option" where
  "nonDecimal s =
     (case s of
        z # k # ds \<Rightarrow>
          if z = CHR ''0'' \<and> ds \<noteq> [] then
            (if k = CHR ''x'' \<or> k = CHR ''X'' then baseVal 16 0 ds
             else if k = CHR ''o'' \<or> k = CHR ''O'' then baseVal 8 0 ds
             else if k = CHR ''b'' \<or> k = CHR ''B'' then baseVal 2 0 ds
             else None)
          else None
      | _ \<Rightarrow> None)"

text \<open>An exponent part after \<open>e\<close>: an optional sign and at least one digit.\<close>

definition exponentVal :: "string \<Rightarrow> int option" where
  "exponentVal s =
     (case s of
        [] \<Rightarrow> None
      | c # cs \<Rightarrow>
          if c = CHR ''+'' then (if allDigits cs then Some (int (digitsVal cs)) else None)
          else if c = CHR ''-'' then (if allDigits cs then Some (- int (digitsVal cs)) else None)
          else if allDigits s then Some (int (digitsVal s)) else None)"

text \<open>A mantissa: digits, digits with a fraction, or a fraction alone.\<close>

definition mantissaVal :: "string \<Rightarrow> rat option" where
  "mantissaVal s =
     (let ip = takeWhile (\<lambda>c. c \<noteq> CHR ''.'') s;
          rest = dropWhile (\<lambda>c. c \<noteq> CHR ''.'') s
      in if rest = [] then (if allDigits ip then Some (of_nat (digitsVal ip)) else None)
         else
           (let fp = tl rest
            in if (ip = [] \<and> fp = []) \<or> \<not> list_all isDigit ip \<or> \<not> list_all isDigit fp
               then None
               else Some (of_nat (digitsVal ip) + of_nat (digitsVal fp) / 10 ^ length fp)))"

definition isExpChar :: "char \<Rightarrow> bool" where
  "isExpChar c = (c = CHR ''e'' \<or> c = CHR ''E'')"

definition unsignedDecimal :: "string \<Rightarrow> rat option" where
  "unsignedDecimal s =
     (let m = takeWhile (\<lambda>c. \<not> isExpChar c) s;
          rest = dropWhile (\<lambda>c. \<not> isExpChar c) s
      in case mantissaVal m of
           None \<Rightarrow> None
         | Some mv \<Rightarrow>
             if rest = [] then Some mv
             else (case exponentVal (tl rest) of
                     None \<Rightarrow> None
                   | Some e \<Rightarrow> Some (if 0 \<le> e then mv * 10 ^ nat e else mv / 10 ^ nat (- e))))"

definition strDecimal :: "string \<Rightarrow> jsnum" where
  "strDecimal s =
     (let neg = (s \<noteq> [] \<and> hd s = CHR ''-'');
          body = (if s \<noteq> [] \<and> (hd s = CHR ''-'' \<or> hd s = CHR ''+'') then tl s else s)
      in if body = ''Infinity'' then inf_of (\<not> neg)
         else (case unsignedDecimal body of
                 None \<Rightarrow> NaN
               | Some v \<Rightarrow> toDouble (if neg then - v else v)))"

definition Number :: "string \<Rightarrow> jsnum" where
  "Number s =
     (let t = trim s
      in if t = [] then Fin 0
         else (case nonDecimal t of
                 Some n \<Rightarrow> toDouble (of_nat n)
               | None \<Rightarrow> strDecimal t))"

section \<open>Calendar dates\<close>

text \<open>
  The platform's \<open>Date\<close> is modelled on civil dates: a year, a month counted from 0 as
  \<open>getUTCMonth\<close> does, and a day of the month. \<open>Date.UTC\<close> and \<open>setUTCDate\<close> accept
  months and days outside their ranges and carry them over; \<open>normDate\<close> is that carry.
\<close>

definition isLeap :: "int \<Rightarrow> bool" where
  "isLeap y = (y mod 4 = 0 \<and> (y mod 400 = 0 \<or> y mod 100 \<noteq> 0))"

definition daysInMonth :: "int \<Rightarrow> int \<Rightarrow> int" where
  "daysInMonth y m =
     (if m = 1 then (if isLeap y then 29 else 28)
      else if m = 3 \<or> m = 5 \<or> m = 8 \<or> m = 10 then 30
      else 31)"

function normDate :: "int \<Rightarrow> int \<Rightarrow> int \<Rightarrow> int \<times> int \<times> int" where
  "normDate y m d =
     (if m < 0 \<or> 11 < m then normDate (y + m div 12) (m mod 12) d
      else if d < 1 then
        (let y' = (if m = 0 then y - 1 else y); m' = (if m = 0 then 11 else m - 1)
         in normDate y' m' (d + daysInMonth y' m'))
      else if daysInMonth y m < d then
        (let y' = (if m = 11 then y + 1 else y); m' = (if m = 11 then 0 else m + 1)
         in normDate y' m' (d - daysInMonth y m))
      else (y, m, d))"
  by pat_completeness auto
termination
  by (relation "measures [\<lambda>(y, m, d). if m < 0 \<or> 11 < m then 1 else 0,
                          \<lambda>(y, m, d). if d < 1 then nat (33 - d) else nat d]")
     (auto simp: daysInMonth_def)

declare normDate.simps [simp del]

text \<open>
  \<open>new Date(Date.UTC(y, m, d))\<close> read back with \<open>getUTCFullYear\<close>, \<open>getUTCMonth\<close>,
  \<open>getUTCDate\<close>. \<open>Date.UTC\<close> takes a year from 0 to 99 as 1900 plus that year.
\<close>

definition dateUTC :: "int \<Rightarrow> int \<Rightarrow> int \<Rightarrow> int \<times> int \<times> int" where
  "dateUTC y m d = normDate (if 0 \<le> y \<and> y \<le> 99 then 1900 + y else y) m d"

text \<open>The two patterns \<open>/^\d{2}-\d{2}-\d{4}$/\<close> and \<open>/^\d{4}-\d{2}-\d{2}$/\<close>.\<close>

definition isDDMMYYYY :: "string \<Rightarrow> bool" where
  "isDDMMYYYY t =
     (case t of
        [d1, d2, s1, m1, m2, s2, y1, y2, y3, y4] \<Rightarrow>
          isDigit d1 \<and> isDigit d2 \<and> s1 = CHR ''-'' \<and> isDigit m1 \<and> isDigit m2 \<and>
          s2 = CHR ''-'' \<and> isDigit y1 \<and> isDigit y2 \<and> isDigit y3 \<and> isDigit y4
      | _ \<Rightarrow> False)"

definition isYYYYMMDD :: "string \<Rightarrow> bool" where
  "isYYYYMMDD t =
     (case t of
        [y1, y2, y3, y4, s1, m1, m2, s2, d1, d2] \<Rightarrow>
          isDigit y1 \<and> isDigit y2 \<and> isDigit y3 \<and> isDigit y4 \<and> s1 = CHR ''-'' \<and>
          isDigit m1 \<and> isDigit m2 \<and> s2 = CHR ''-'' \<and> isDigit d1 \<and> isDigit d2
      | _ \<Rightarrow> False)"

text \<open>\<open>s.slice(a, b)\<close> for \<open>0 \<le> a \<le> b\<close>.\<close>

definition slice :: "nat \<Rightarrow> nat \<Rightarrow> string \<Rightarrow> string" where
  "slice a b s = take (b - a) (drop a s)"

text \<open>
  \<open>new Date(s + "T00:00:00Z")\<close> for a string \<open>s\<close> of the form YYYY-MM-DD: the date
  parser of V8 takes a month from 01 to 12 and a day from 01 to 31 whatever the month,
  carrying a day beyond the month's end into the next month; anything else is an invalid
  date (\<open>None\<close>). Strings of another form are outside this model and read as invalid.
\<close>

definition parseDate :: "string \<Rightarrow> (int \<times> int \<times> int) option" where
  "parseDate s =
     (if \<not> isYYYYMMDD s then None
      else
        (let y = int (digitsVal (slice 0 4 s));
             m = int (digitsVal (slice 5 7 s));
             d = int (digitsVal (slice 8 10 s))
         in if 1 \<le> m \<and> m \<le> 12 \<and> 1 \<le> d \<and> d \<le> 31 then Some (normDate y (m - 1) d)
            else None))"

text \<open>
  \<^verbatim>\<open>function parseISOKey(s) { const ok = /^\d{4}-\d{2}-\d{2}$/.test(s); if (!ok) return null;
     const d = new Date(s + "T00:00:00Z"); return Number.isNaN(d.getTime()) ? null : s; }\<close>
\<close>

definition parseISOKey :: "string \<Rightarrow> string option" where
  "parseISOKey s =
     (if \<not> isYYYYMMDD s then None
      else (case parseDate s of None \<Rightarrow> None | Some d \<Rightarrow> Some s))"

text \<open>
  \<open>parseInputDate\<close>, the same in both variants of the application. The result's year is
  the number \<open>yyyy\<close> written by a template literal, so without leading zeros; month and
  day are padded to two digits.
\<close>

definition parseInputDate :: "string \<Rightarrow> string option" where
  "parseInputDate s =
     (let t = trim s
      in if isDDMMYYYY t then
           (let dd = digitsVal (slice 0 2 t);
                mm = digitsVal (slice 3 5 t);
                yyyy = digitsVal (slice 6 10 t);
                d = dateUTC (int yyyy) (int mm - 1) (int dd)
            in if d \<noteq> (int yyyy, int mm - 1, int dd) then None
               else Some (showNat yyyy @ ''-'' @ padStart0 2 (showNat mm) @ ''-'' @
                          padStart0 2 (showNat dd)))
         else if isYYYYMMDD t then parseISOKey t
         else None)"

text \<open>
  A real date of the Gregorian calendar, in the words of the specification: a month from
  1 to 12 and a day from 1 to the length of that month, February having 29 days in a
  leap year.
\<close>

definition realDate :: "nat \<Rightarrow> nat \<Rightarrow> nat \<Rightarrow> bool" where
  "realDate y m d =
     (1 \<le> m \<and> m \<le> 12 \<and> 1 \<le> d \<and>
      d \<le> (if m = 2 then (if y mod 4 = 0 \<and> (y mod 400 = 0 \<or> y mod 100 \<noteq> 0) then 29 else 28)
            else if m = 4 \<or> m = 6 \<or> m = 9 \<or> m = 11 then 30
            else 31))"

text \<open>
  The sentinel that \<open>formatDDMMYYYY\<close> returns for a missing or malformed date is the
  one-character string U+2014; it is written here as its three UTF-8 bytes.
\<close>

definition unknownMarker :: string where
  "unknownMarker = [CHR 0xE2, CHR 0x80, CHR 0x94]"

text \<open>
  \<^verbatim>\<open>function formatDDMMYYYY(iso) {
     if (!iso || typeof iso !== "string" || !/^\d{4}-\d{2}-\d{2}$/.test(iso)) return "-";
     const [y, m, d] = iso.split("-"); return `${d}-${m}-${y}`; }\<close>  (src/App.tsx;
  the returned sentinel is U+2014). The argument is \<open>None\<close> for \<open>null\<close>.
\<close>

definition formatDDMMYYYY :: "string option \<Rightarrow> string" where
  "formatDDMMYYYY key =
     (case key of
        None \<Rightarrow> unknownMarker
      | Some i \<Rightarrow>
          if i = [] \<or> \<not> isYYYYMMDD i then unknownMarker
          else (case splitOn (CHR ''-'') i of
                  y # m # d # _ \<Rightarrow> d @ ''-'' @ m @ ''-'' @ y
                | _ \<Rightarrow> unknownMarker))"

text \<open>
  The shorter variant has no pattern test: \<^verbatim>\<open>if (!iso) return "-";
  const [y, m, d] = iso.split("-"); return `${d}-${m}-${y}`;\<close>  A part that the split
  does not yield is \<open>undefined\<close> and prints as that word.
\<close>

definition partOr :: "string list \<Rightarrow> nat \<Rightarrow> string" where
  "partOr ps i = (if i < length ps then ps ! i else ''undefined'')"

definition formatDDMMYYYY_short :: "string option \<Rightarrow> string" where
  "formatDDMMYYYY_short key =
     (case key of
        None \<Rightarrow> unknownMarker
      | Some i \<Rightarrow>
          if i = [] then unknownMarker
          else (let ps = splitOn (CHR ''-'') i
                in partOr ps 2 @ ''-'' @ partOr ps 1 @ ''-'' @ partOr ps 0))"

text \<open>
  \<open>d.toISOString().slice(0, 10)\<close>: a year from 0 to 9999 is written with four digits,
  any other year with a sign and six digits, and the first ten characters are kept.
\<close>

fun isoDate10 :: "int \<times> int \<times> int \<Rightarrow> string" where
  "isoDate10 (y, m, d) =
     take 10
       ((if 0 \<le> y \<and> y \<le> 9999 then padStart0 4 (showNat (nat y))
         else (if y < 0 then ''-'' else ''+'') @ padStart0 6 (showNat (nat \<bar>y\<bar>)))
        @ ''-'' @ padStart0 2 (showNat (nat (m + 1))) @ ''-'' @ padStart0 2 (showNat (nat d)))"

text \<open>\<open>d.setUTCDate(d.getUTCDate() + n)\<close>\<close>

fun addUTCDays :: "int \<times> int \<times> int \<Rightarrow> int \<Rightarrow> int \<times> int \<times> int" where
  "addUTCDays (y, m, d) n = normDate y m (d + n)"

text \<open>
  \<^verbatim>\<open>function isoPlusDays(iso, days) { const d = new Date(iso + "T00:00:00Z");
     d.setUTCDate(d.getUTCDate() + days); return d.toISOString().slice(0, 10); }\<close>
  and \<open>isoMinusDays\<close> with \<open>-\<close>. On an invalid date \<open>toISOString\<close> throws: \<open>None\<close>.
\<close>

definition isoPlusDays :: "string \<Rightarrow> int \<Rightarrow> string option" where
  "isoPlusDays key days =
     (case parseDate key of
        None \<Rightarrow> None
      | Some dt \<Rightarrow> Some (isoDate10 (addUTCDays dt days)))"

definition isoMinusDays :: "string \<Rightarrow> int \<Rightarrow> string option" where
  "isoMinusDays key days =
     (case parseDate key of
        None \<Rightarrow> None
      | Some dt \<Rightarrow> Some (isoDate10 (addUTCDays dt (- days))))"

section \<open>Records and the store\<close>

text \<open>\<^verbatim>\<open>type DailyPoint = { date: string; generation_gwh: number }\<close>\<close>

record DailyPoint =
  date :: string
  generation_gwh :: jsnum

text \<open>
  The store is a \<open>Map<string, number>\<close>. Maps are objects with identity: the heap holds
  them, and an address is an index into it.
\<close>

type_synonym store = "string \<rightharpoonup> jsnum"
type_synonym heap = "store list"

text \<open>\<open>new Map(src)\<close>: a fresh object holding a copy of the entries of \<open>src\<close>.\<close>

definition newMapFrom :: "heap \<Rightarrow> nat \<Rightarrow> heap \<times> nat" where
  "newMapFrom h src = (h @ [h ! src], length h)"

text \<open>\<open>m.set(k, v)\<close> changes the object at the address in place.\<close>

definition mapSet :: "heap \<Rightarrow> nat \<Rightarrow> string \<Rightarrow> jsnum \<Rightarrow> heap" where
  "mapSet h a k v = h[a := (h ! a)(k \<mapsto> v)]"

text \<open>
  \<^verbatim>\<open>function mergeRecords(existingMap, incoming) { const next = new Map(existingMap);
     for (const r of incoming) next.set(r.date, r.generation_gwh); return next; }\<close>
\<close>

definition mergeRecords :: "heap \<Rightarrow> nat \<Rightarrow> DailyPoint list \<Rightarrow> heap \<times> nat" where
  "mergeRecords h existingMap incoming =
     (case newMapFrom h existingMap of
        (h1, next) \<Rightarrow> (foldl (\<lambda>hp r. mapSet hp next (date r) (generation_gwh r)) h1 incoming, next))"

text \<open>
  The value that the last record of a batch gives to a date, if the batch has a record
  for that date.
\<close>

definition lastFor :: "DailyPoint list \<Rightarrow> string \<Rightarrow> jsnum option" where
  "lastFor incoming k =
     (let rs = filter (\<lambda>r. date r = k) incoming
      in if rs = [] then None else Some (generation_gwh (last rs)))"

section \<open>CSV parsing\<close>

text \<open>
  The rows of \<open>csvParse\<close>: the text is split into lines, each line trimmed, empty lines
  dropped; each line is split at commas, each column trimmed, and a row with fewer than
  two columns is not kept.
\<close>

definition csvLines :: "string \<Rightarrow> string list" where
  "csvLines text = filter (\<lambda>l. l \<noteq> []) (map trim (splitLines text))"

definition csvCols :: "string \<Rightarrow> string list" where
  "csvCols line = map trim (splitOn (CHR '','') line)"

definition csvRows :: "string \<Rightarrow> string list list" where
  "csvRows text = filter (\<lambda>cols. 2 \<le> length cols) (map csvCols (csvLines text))"

definition isHeader :: "string list \<Rightarrow> bool" where
  "isHeader row =
     (case row of
        c0 # c1 # _ \<Rightarrow>
          (let h0 = toLowerCase c0; h1 = toLowerCase c1
           in includesStr h0 ''date'' \<and> (includesStr h1 ''gen'' \<or> includesStr h1 ''gwh''))
      | _ \<Rightarrow> False)"

definition stripHeader :: "string list list \<Rightarrow> string list list" where
  "stripHeader rows =
     (case rows of [] \<Rightarrow> [] | r # rs \<Rightarrow> if isHeader r then rs else r # rs)"

text \<open>\<open>g < 0\<close> and the two messages.\<close>

fun isNegative :: "jsnum \<Rightarrow> bool" where
  "isNegative (Fin r) = (r < 0)"
| "isNegative NInf = True"
| "isNegative _ = False"

definition quote :: "string \<Rightarrow> string" where
  "quote s = [CHR 0x27] @ s @ [CHR 0x27]"

definition dateError :: "nat \<Rightarrow> string \<Rightarrow> string" where
  "dateError i dRaw =
     ''Row '' @ showNat (i + 1) @ '': invalid date '' @ quote dRaw @ '' (expected DD-MM-YYYY)''"

definition genError :: "nat \<Rightarrow> string \<Rightarrow> string" where
  "genError i gRaw =
     ''Row '' @ showNat (i + 1) @ '': invalid generation '' @ quote gRaw @
     '' (expected non-negative number)''"

text \<open>\<open>String(gRaw).replace(/,/g, "")\<close>\<close>

definition removeCommas :: "string \<Rightarrow> string" where
  "removeCommas s = filter (\<lambda>c. c \<noteq> CHR '','') s"

text \<open>
  The body of the loop of \<open>csvParse\<close> for the row at index \<open>i\<close>: it pushes one error
  (\<open>Inl\<close>) and continues, or pushes one record (\<open>Inr\<close>). \<open>!date\<close> holds for \<open>null\<close> and
  for the empty string.
  \<^verbatim>\<open>const [dRaw, gRaw] = rows[i]; const date = parseInputDate(dRaw);
  const g = Number(String(gRaw).replace(/,/g, ""));
  if (!date) { errors.push(`Row ${i + 1}: invalid date '${dRaw}' (expected DD-MM-YYYY)`); continue; }
  if (!Number.isFinite(g) || g < 0) { errors.push(`Row ${i + 1}: invalid generation ...`); continue; }
  parsed.push({ date, generation_gwh: g });\<close>
\<close>

definition csvRow :: "nat \<Rightarrow> string list \<Rightarrow> string + DailyPoint" where
  "csvRow i row =
     (let dRaw = (case row of c0 # _ \<Rightarrow> c0 | [] \<Rightarrow> []);
          gRaw = (case row of _ # c1 # _ \<Rightarrow> c1 | _ \<Rightarrow> []);
          dt = parseInputDate dRaw;
          g = Number (removeCommas gRaw)
      in case dt of
           None \<Rightarrow> Inl (dateError i dRaw)
         | Some key \<Rightarrow>
             if key = [] then Inl (dateError i dRaw)
             else if \<not> isFinite g \<or> isNegative g then Inl (genError i gRaw)
             else Inr \<lparr>date = key, generation_gwh = g\<rparr>)"

text \<open>
  The loop \<^verbatim>\<open>for (let i = 0; i < rows.length; i++)\<close>, with the index and the two
  output arrays as state.
\<close>

fun csvLoop :: "nat \<Rightarrow> string list list \<Rightarrow> DailyPoint list \<times> string list \<Rightarrow>
    DailyPoint list \<times> string list" where
  "csvLoop i [] acc = acc"
| "csvLoop i (row # rows) (parsed, errors) =
     (case csvRow i row of
        Inl e \<Rightarrow> csvLoop (i + 1) rows (parsed, errors @ [e])
      | Inr r \<Rightarrow> csvLoop (i + 1) rows (parsed @ [r], errors))"

definition csvParse :: "string \<Rightarrow> DailyPoint list \<times> string list" where
  "csvParse text = csvLoop 0 (stripHeader (csvRows text)) ([], [])"




text \<open>A non-empty string of digits and hyphens.\<close>

definition dateChars :: "string \<Rightarrow> bool" where
  "dateChars d = (d \<noteq> [] \<and> (\<forall>c \<in> set d. isDigit c \<or> c = CHR ''-''))"

section \<open>Hydration from the persisted blob\<close>

text \<open>The values that \<open>JSON.parse\<close> returns.\<close>

datatype json = JNull | JBool bool | JNum jsnum | JStr string | JArr "json list"
  | JObj "(string \<times> json) list"

text \<open>
  \<open>Number(v)\<close> for such a value. An array converts through its string, the elements
  joined by commas: the empty array reads as the empty string, a one-element array as
  its element's string (\<open>null\<close> prints as the empty string, a number as itself), and a
  longer array holds a comma, which no number does. An object prints as
  \<open>[object Object]\<close>.
\<close>

fun numberOfJson :: "json \<Rightarrow> jsnum" where
  "numberOfJson JNull = Fin 0"
| "numberOfJson (JBool b) = (if b then Fin 1 else Fin 0)"
| "numberOfJson (JNum n) = n"
| "numberOfJson (JStr s) = Number s"
| "numberOfJson (JObj kvs) = NaN"
| "numberOfJson (JArr []) = Fin 0"
| "numberOfJson (JArr [x]) =
     (case x of
        JNull \<Rightarrow> Fin 0
      | JBool b \<Rightarrow> NaN
      | JNum n \<Rightarrow> n
      | JStr s \<Rightarrow> Number s
      | JArr ys \<Rightarrow> numberOfJson x
      | JObj kvs \<Rightarrow> NaN)"
| "numberOfJson (JArr (x # y # zs)) = NaN"

text \<open>
  \<open>Object.entries(v)\<close>: the properties of an object, the indexed elements of an array or
  a string, nothing for a number or a boolean; on \<open>null\<close> it throws (\<open>None\<close>).
\<close>

definition indexKeys :: "nat \<Rightarrow> string list" where
  "indexKeys n = map showNat [0..<n]"

fun objectEntries :: "json \<Rightarrow> (string \<times> json) list option" where
  "objectEntries JNull = None"
| "objectEntries (JBool b) = Some []"
| "objectEntries (JNum n) = Some []"
| "objectEntries (JStr s) = Some (zip (indexKeys (length s)) (map (\<lambda>c. JStr [c]) s))"
| "objectEntries (JArr xs) = Some (zip (indexKeys (length xs)) xs)"
| "objectEntries (JObj kvs) = Some kvs"

text \<open>\<open>obj || {}\<close>: a falsy value is replaced by the empty object.\<close>

fun orEmptyObject :: "json \<Rightarrow> json" where
  "orEmptyObject JNull = JObj []"
| "orEmptyObject (JBool b) = (if b then JBool b else JObj [])"
| "orEmptyObject (JNum n) = (if n = Fin 0 \<or> n = NaN then JObj [] else JNum n)"
| "orEmptyObject (JStr s) = (if s = [] then JObj [] else JStr s)"
| "orEmptyObject v = v"

text \<open>
  The initialiser of the store in \<open>App\<close> (src/App.tsx). \<open>raw\<close> is what
  \<open>localStorage.getItem\<close> returned; \<open>jsonParse\<close> is the platform's \<open>JSON.parse\<close>, \<open>None\<close>
  where it throws. Any exception inside the \<open>try\<close> ends in \<open>return new Map()\<close>.
  \<^verbatim>\<open>for (const [k, v] of entries) { const d = parseISOKey(k); const g = Number(v);
     if (d && Number.isFinite(g) && g >= 0) m.set(d, g); }\<close>
\<close>

definition entryOk :: "string \<times> json \<Rightarrow> bool" where
  "entryOk kv =
     (case parseISOKey (fst kv) of
        None \<Rightarrow> False
      | Some d \<Rightarrow> d \<noteq> [] \<and> isFinite (numberOfJson (snd kv)) \<and> \<not> isNegative (numberOfJson (snd kv)))"

definition hydrateStep :: "store \<Rightarrow> string \<times> json \<Rightarrow> store" where
  "hydrateStep m kv =
     (if entryOk kv
      then (case parseISOKey (fst kv) of None \<Rightarrow> m | Some d \<Rightarrow> m(d \<mapsto> numberOfJson (snd kv)))
      else m)"

definition hydrate :: "(string \<Rightarrow> json option) \<Rightarrow> string option \<Rightarrow> store" where
  "hydrate jsonParse raw =
     (case raw of
        None \<Rightarrow> Map.empty
      | Some r \<Rightarrow>
          if r = [] then Map.empty
          else (case jsonParse r of
                  None \<Rightarrow> Map.empty
                | Some obj \<Rightarrow>
                    (case objectEntries (orEmptyObject obj) of
                       None \<Rightarrow> Map.empty
                     | Some entries \<Rightarrow> foldl hydrateStep Map.empty entries)))"

text \<open>
  The shorter variant loads every entry as it is:
  \<^verbatim>\<open>const obj = JSON.parse(raw);
  return new Map(Object.entries(obj).map(([k, v]) => [k, Number(v)]));\<close>
\<close>

definition hydrate_short :: "(string \<Rightarrow> json option) \<Rightarrow> string option \<Rightarrow> store" where
  "hydrate_short jsonParse raw =
     (case raw of
        None \<Rightarrow> Map.empty
      | Some r \<Rightarrow>
          if r = [] then Map.empty
          else (case jsonParse r of
                  None \<Rightarrow> Map.empty
                | Some obj \<Rightarrow>
                    (case objectEntries obj of
                       None \<Rightarrow> Map.empty
                     | Some entries \<Rightarrow>
                         foldl (\<lambda>m kv. m(fst kv \<mapsto> numberOfJson (snd kv))) Map.empty entries)))"

section \<open>Monthly rollup\<close>

text \<open>
  The keys of the store have the form YYYY-MM-DD, so the pieces that the rollup cuts out
  of a key and reads with \<open>Number\<close> are strings of digits, read here by \<open>digitsVal\<close>.
  \<^verbatim>\<open>function monthKey(isoDate) { return isoDate.slice(0, 7); }\<close>
\<close>

definition monthKey :: "string \<Rightarrow> string" where
  "monthKey isoDate = slice 0 7 isoDate"

definition dayOfKey :: "string \<Rightarrow> nat" where
  "dayOfKey isoDate = digitsVal (slice 8 10 isoDate)"

text \<open>
  The value of the month map: \<^verbatim>\<open>{ total: number; maxDay: number; byDay: Map<number, number> }\<close>.
  The maps of the rollup are association lists in insertion order.
\<close>

record MonthRec =
  total :: jsnum
  maxDay :: nat
  byDay :: "(nat \<times> jsnum) list"

text \<open>\<open>x || 0\<close> for a number that may be undefined.\<close>

fun orZero :: "jsnum option \<Rightarrow> jsnum" where
  "orZero None = Fin 0"
| "orZero (Some v) = (if v = Fin 0 \<or> v = NaN then Fin 0 else v)"

text \<open>
  One round of the loop of \<open>buildMonthDayMap\<close>:
  \<^verbatim>\<open>const m = monthKey(d.date); const day = Number(d.date.slice(8, 10));
  if (!map.has(m)) map.set(m, { total: 0, maxDay: 0, byDay: new Map() });
  const rec = map.get(m)!; rec.total += d.generation_gwh;
  rec.maxDay = Math.max(rec.maxDay, day);
  rec.byDay.set(day, (rec.byDay.get(day) || 0) + d.generation_gwh);\<close>
\<close>

definition buildStep :: "(string \<times> MonthRec) list \<Rightarrow> DailyPoint \<Rightarrow> (string \<times> MonthRec) list" where
  "buildStep mp d =
     (let m = monthKey (date d);
          day = dayOfKey (date d);
          rec = (case map_of mp m of
                   None \<Rightarrow> \<lparr>total = Fin 0, maxDay = 0, byDay = []\<rparr>
                 | Some r \<Rightarrow> r)
      in AList.update m
           \<lparr>total = jsadd (total rec) (generation_gwh d),
            maxDay = max (maxDay rec) day,
            byDay = AList.update day
                      (jsadd (orZero (map_of (byDay rec) day)) (generation_gwh d)) (byDay rec)\<rparr>
           mp)"

definition buildMonthDayMap :: "DailyPoint list \<Rightarrow> (string \<times> MonthRec) list" where
  "buildMonthDayMap sortedDaily = foldl buildStep [] sortedDaily"

text \<open>
  \<^verbatim>\<open>function sumMonthUpToDay(monthRec, dayLimit) { if (!monthRec) return null;
     let s = 0; let hasAny = false;
     for (let day = 1; day <= dayLimit; day++) { const v = monthRec.byDay.get(day);
       if (v != null) { s += v; hasAny = true; } }
     return hasAny ? s : null; }\<close>
\<close>

definition sumStep :: "(nat \<times> jsnum) list \<Rightarrow> jsnum \<times> bool \<Rightarrow> nat \<Rightarrow> jsnum \<times> bool" where
  "sumStep bd acc day =
     (case map_of bd day of None \<Rightarrow> acc | Some v \<Rightarrow> (jsadd (fst acc) v, True))"

definition sumMonthUpToDay :: "MonthRec option \<Rightarrow> nat \<Rightarrow> jsnum option" where
  "sumMonthUpToDay monthRec dayLimit =
     (case monthRec of
        None \<Rightarrow> None
      | Some r \<Rightarrow>
          (case foldl (sumStep (byDay r)) (Fin 0, False) [1..<Suc dayLimit] of
             (s, hasAny) \<Rightarrow> if hasAny then Some s else None))"

text \<open>\<open>String(n)\<close> for an integer.\<close>

definition showInt :: "int \<Rightarrow> string" where
  "showInt n = (if n < 0 then ''-'' @ showNat (nat (- n)) else showNat (nat n))"

text \<open>
  \<^verbatim>\<open>function addMonths(ym, delta) { const [y, m] = ym.split("-").map(Number);
     const d = new Date(Date.UTC(y, m - 1 + delta, 1));
     return `${d.getUTCFullYear()}-${String(d.getUTCMonth() + 1).padStart(2, "0")}`; }\<close>
  Without a second part the month is undefined and the date invalid.
\<close>

fun yearMonth :: "int \<times> int \<times> int \<Rightarrow> string" where
  "yearMonth (y, m, d) = showInt y @ ''-'' @ padStart0 2 (showInt (m + 1))"

definition addMonths :: "string \<Rightarrow> int \<Rightarrow> string" where
  "addMonths ym delta =
     (case splitOn (CHR ''-'') ym of
        ys # ms # _ \<Rightarrow> yearMonth (dateUTC (int (digitsVal ys)) (int (digitsVal ms) - 1 + delta) 1)
      | _ \<Rightarrow> ''NaN-NaN'')"

definition getYear :: "string \<Rightarrow> nat" where
  "getYear ym = digitsVal (slice 0 4 ym)"

definition getMonth :: "string \<Rightarrow> nat" where
  "getMonth ym = digitsVal (slice 5 7 ym)"

record MonthlyRecord =
  month :: string
  total_gwh :: jsnum
  max_day :: nat
  yoy_pct :: "jsnum option"
  mom_pct :: "jsnum option"

text \<open>
  The comparison of \<open>toMonthly\<close>:
  \<^verbatim>\<open>const c = sumMonthUpToDay(monthMap.get(key), r.max_day);
  pct = c != null ? growthPct(r.total_gwh, c) : null;\<close>
\<close>

definition comparePct :: "(string \<times> MonthRec) list \<Rightarrow> string \<Rightarrow> jsnum \<Rightarrow> nat \<Rightarrow> jsnum option" where
  "comparePct monthMap key tot k =
     (case sumMonthUpToDay (map_of monthMap key) k of
        None \<Rightarrow> None
      | Some c \<Rightarrow> growthPct tot (Some c))"

definition prevYearMonth :: "string \<Rightarrow> string" where
  "prevYearMonth m = showInt (int (getYear m) - 1) @ ''-'' @ padStart0 2 (showNat (getMonth m))"

definition toMonthly :: "DailyPoint list \<Rightarrow> MonthlyRecord list" where
  "toMonthly sortedDaily =
     (let monthMap = buildMonthDayMap sortedDaily;
          months = sort (map fst monthMap)
      in map (\<lambda>m.
                (let rec = (case map_of monthMap m of
                              None \<Rightarrow> \<lparr>total = Fin 0, maxDay = 0, byDay = []\<rparr>
                            | Some r \<Rightarrow> r)
                 in \<lparr>month = m, total_gwh = total rec, max_day = maxDay rec,
                     yoy_pct = comparePct monthMap (prevYearMonth m) (total rec) (maxDay rec),
                     mom_pct = comparePct monthMap (addMonths m (- 1)) (total rec) (maxDay rec)\<rparr>))
             months)"

section \<open>Rolling 30-day sums\<close>

text \<open>
  \<^verbatim>\<open>function round2(n) { if (n == null || !Number.isFinite(n)) return null;
     return Number(n.toFixed(2)); }\<close>
  \<open>toFixed(2)\<close> rounds to the nearest hundredth, a tie away from zero, and leaves a
  magnitude of \<open>10^21\<close> or more as it is.
\<close>

definition fixed2 :: "rat \<Rightarrow> rat" where
  "fixed2 r =
     (if 10 ^ 21 \<le> \<bar>r\<bar> then r
      else if r < 0 then - (of_int \<lfloor>- r * 100 + 1 / 2\<rfloor> / 100)
      else of_int \<lfloor>r * 100 + 1 / 2\<rfloor> / 100)"

fun round2 :: "jsnum option \<Rightarrow> jsnum option" where
  "round2 (Some (Fin r)) = Some (Fin (fixed2 r))"
| "round2 _ = None"

text \<open>\<open>Number(x.toFixed(2))\<close> of the shorter variant: a non-finite number stays.\<close>

fun numFixed2 :: "jsnum \<Rightarrow> jsnum" where
  "numFixed2 (Fin r) = Fin (fixed2 r)"
| "numFixed2 x = x"

definition clamp :: "int \<Rightarrow> int \<Rightarrow> int \<Rightarrow> int" where
  "clamp n lo hi = min hi (max lo n)"

record ChartPoint =
  label :: string
  units :: "jsnum option"
  prev_year_units :: "jsnum option"
  chart_yoy_pct :: "jsnum option"
  chart_mom_pct :: "jsnum option"

text \<open>\<open>new Map(sortedDaily.map((d) => [d.date, d.generation_gwh]))\<close>\<close>

definition lookupOf :: "DailyPoint list \<Rightarrow> store" where
  "lookupOf sortedDaily = map_of (rev (map (\<lambda>d. (date d, generation_gwh d)) sortedDaily))"

text \<open>
  The loops over dates end when a string comparison fails, so they carry fuel: \<open>None\<close>
  stands for a run that does not return, because the fuel is used up or because
  \<open>toISOString\<close> throws on an invalid date.
  \<^verbatim>\<open>const sumRangeInclusive = (startIso, endIso) => { if (startIso > endIso) return null;
     let s = 0; let hasAny = false; let cur = startIso;
     while (cur <= endIso) { const v = dailyLookup.get(cur);
       if (v != null) { s += v; hasAny = true; }  cur = isoPlusDays(cur, 1); }
     return hasAny ? s : null; };\<close>
\<close>

fun sumRangeLoop :: "nat \<Rightarrow> store \<Rightarrow> string \<Rightarrow> string \<Rightarrow> jsnum \<times> bool \<Rightarrow> (jsnum \<times> bool) option" where
  "sumRangeLoop 0 lk cur endIso acc = None"
| "sumRangeLoop (Suc n) lk cur endIso acc =
     (if cur \<le> endIso then
        (case isoPlusDays cur 1 of
           None \<Rightarrow> None
         | Some nxt \<Rightarrow>
             sumRangeLoop n lk nxt endIso
               (case lk cur of None \<Rightarrow> acc | Some v \<Rightarrow> (jsadd (fst acc) v, True)))
      else Some acc)"

definition sumRangeInclusive :: "nat \<Rightarrow> store \<Rightarrow> string \<Rightarrow> string \<Rightarrow> jsnum option option" where
  "sumRangeInclusive fuel lk startIso endIso =
     (if endIso < startIso then Some None
      else (case sumRangeLoop fuel lk startIso endIso (Fin 0, False) of
              None \<Rightarrow> None
            | Some (s, hasAny) \<Rightarrow> Some (if hasAny then Some s else None)))"

text \<open>
  One point of the rolling-30 branch of \<open>dailyForChart\<close> (src/App.tsx):
  \<^verbatim>\<open>const start = isoMinusDays(cur, 29); const currSum = sumRangeInclusive(start, cur);
  const curPrevYear = isoMinusDays(cur, 365);
  const startPrevYear = isoMinusDays(curPrevYear, 29);
  const prevSum = sumRangeInclusive(startPrevYear, curPrevYear);
  points.push({ label: formatDDMMYYYY(cur), units: round2(currSum ?? 0),
    prev_year_units: prevSum != null ? round2(prevSum) : null,
    yoy_pct: currSum != null && prevSum != null ? round2(growthPct(currSum, prevSum)) : null,
    mom_pct: null });\<close>
\<close>

definition rollingPoint :: "nat \<Rightarrow> store \<Rightarrow> string \<Rightarrow> ChartPoint option" where
  "rollingPoint fuel lk cur =
     (case isoMinusDays cur 29 of
        None \<Rightarrow> None
      | Some start \<Rightarrow>
     (case sumRangeInclusive fuel lk start cur of
        None \<Rightarrow> None
      | Some currSum \<Rightarrow>
     (case isoMinusDays cur 365 of
        None \<Rightarrow> None
      | Some curPrevYear \<Rightarrow>
     (case isoMinusDays curPrevYear 29 of
        None \<Rightarrow> None
      | Some startPrevYear \<Rightarrow>
     (case sumRangeInclusive fuel lk startPrevYear curPrevYear of
        None \<Rightarrow> None
      | Some prevSum \<Rightarrow>
          Some \<lparr>label = formatDDMMYYYY (Some cur),
                units = round2 (Some (case currSum of None \<Rightarrow> Fin 0 | Some c \<Rightarrow> c)),
                prev_year_units = (case prevSum of None \<Rightarrow> None | Some p \<Rightarrow> round2 (Some p)),
                chart_yoy_pct =
                  (case currSum of
                     None \<Rightarrow> None
                   | Some c \<Rightarrow>
                       (case prevSum of None \<Rightarrow> None | Some p \<Rightarrow> round2 (growthPct c (Some p)))),
                chart_mom_pct = None\<rparr>)))))"

text \<open>
  \<^verbatim>\<open>let cur = f; while (cur <= t) { ... points.push(...); cur = isoPlusDays(cur, 1); }\<close>
\<close>

fun rollingLoop :: "nat \<Rightarrow> nat \<Rightarrow> store \<Rightarrow> string \<Rightarrow> string \<Rightarrow> ChartPoint list \<Rightarrow> ChartPoint list option" where
  "rollingLoop 0 fuel lk cur t points = None"
| "rollingLoop (Suc n) fuel lk cur t points =
     (if cur \<le> t then
        (case rollingPoint fuel lk cur of
           None \<Rightarrow> None
         | Some p \<Rightarrow>
             (case isoPlusDays cur 1 of
                None \<Rightarrow> None
              | Some nxt \<Rightarrow> rollingLoop n fuel lk nxt t (points @ [p])))
      else Some points)"

text \<open>
  \<open>dailyForChart\<close> of src/App.tsx with \<open>aggFreq === "rolling30"\<close>. An unset \<open>fromIso\<close>
  or \<open>toIso\<close> is the empty string.
\<close>

definition dailyForChart_rolling30 ::
    "nat \<Rightarrow> DailyPoint list \<Rightarrow> string \<Rightarrow> string \<Rightarrow> int \<Rightarrow> ChartPoint list option" where
  "dailyForChart_rolling30 fuel sortedDaily fromIso toIso rangeDays =
     (if sortedDaily = [] then Some []
      else
        (let lastIso = date (last sortedDaily);
             effectiveTo = (if toIso = [] then lastIso else toIso)
         in case (if fromIso = [] then isoMinusDays lastIso (clamp rangeDays 7 3650)
                  else Some fromIso) of
              None \<Rightarrow> None
            | Some effectiveFrom \<Rightarrow>
                (let f = (if effectiveFrom \<le> effectiveTo then effectiveFrom else effectiveTo);
                     t = (if effectiveFrom \<le> effectiveTo then effectiveTo else effectiveFrom)
                 in rollingLoop fuel fuel (lookupOf sortedDaily) f t [])))"

text \<open>
  The shorter variant sums each window with a counted loop:
  \<^verbatim>\<open>let sum = 0; let cnt = 0;
  for (let i = 0; i < 30; i++) { const d = isoMinusDays(cur, i);
    if (lookup.has(d)) { sum += lookup.get(d)!; cnt++; } }\<close>
\<close>

fun windowLoop :: "store \<Rightarrow> string \<Rightarrow> int list \<Rightarrow> jsnum \<times> nat \<Rightarrow> (jsnum \<times> nat) option" where
  "windowLoop lk cur [] acc = Some acc"
| "windowLoop lk cur (i # is) acc =
     (case isoMinusDays cur i of
        None \<Rightarrow> None
      | Some d \<Rightarrow>
          windowLoop lk cur is
            (case lk d of None \<Rightarrow> acc | Some v \<Rightarrow> (jsadd (fst acc) v, Suc (snd acc))))"

definition window30 :: "store \<Rightarrow> string \<Rightarrow> (jsnum \<times> nat) option" where
  "window30 lk cur = windowLoop lk cur (map int [0..<30]) (Fin 0, 0)"

text \<open>
  The store's value for the day \<open>i\<close> days before \<open>cur\<close>, if the store has that date.
\<close>

definition windowValue :: "store \<Rightarrow> string \<Rightarrow> int \<Rightarrow> jsnum option" where
  "windowValue lk cur i = (case isoMinusDays cur i of None \<Rightarrow> None | Some d \<Rightarrow> lk d)"

text \<open>
  \<^verbatim>\<open>out.push({ label: formatDDMMYYYY(cur), units: cnt ? Number(sum.toFixed(2)) : null,
    prev_year_units: prevCnt ? Number(prevSum.toFixed(2)) : null,
    yoy_pct: cnt && prevCnt ? Number(growthPct(sum, prevSum)?.toFixed(2)) : null,
    mom_pct: null });\<close>
  Where \<open>growthPct\<close> returns \<open>null\<close>, \<open>?.\<close> yields \<open>undefined\<close> and \<open>Number\<close> of it is \<open>NaN\<close>.
\<close>

definition rollingPoint_short :: "store \<Rightarrow> string \<Rightarrow> ChartPoint option" where
  "rollingPoint_short lk cur =
     (case window30 lk cur of
        None \<Rightarrow> None
      | Some (total30, cnt) \<Rightarrow>
     (case isoMinusDays cur 365 of
        None \<Rightarrow> None
      | Some prevEnd \<Rightarrow>
     (case window30 lk prevEnd of
        None \<Rightarrow> None
      | Some (prevSum, prevCnt) \<Rightarrow>
          Some \<lparr>label = formatDDMMYYYY_short (Some cur),
                units = (if cnt \<noteq> 0 then Some (numFixed2 total30) else None),
                prev_year_units = (if prevCnt \<noteq> 0 then Some (numFixed2 prevSum) else None),
                chart_yoy_pct =
                  (if cnt \<noteq> 0 \<and> prevCnt \<noteq> 0
                   then Some (case growthPct_short total30 (Some prevSum) of
                                None \<Rightarrow> NaN
                              | Some g \<Rightarrow> numFixed2 g)
                   else None),
                chart_mom_pct = None\<rparr>)))"

fun rollingLoop_short :: "nat \<Rightarrow> store \<Rightarrow> string \<Rightarrow> string \<Rightarrow> ChartPoint list \<Rightarrow> ChartPoint list option" where
  "rollingLoop_short 0 lk cur t out = None"
| "rollingLoop_short (Suc n) lk cur t out =
     (if cur \<le> t then
        (case rollingPoint_short lk cur of
           None \<Rightarrow> None
         | Some p \<Rightarrow>
             (case isoPlusDays cur 1 of
                None \<Rightarrow> None
              | Some nxt \<Rightarrow> rollingLoop_short n lk nxt t (out @ [p])))
      else Some out)"

definition dailyForChart_rolling30_short ::
    "nat \<Rightarrow> DailyPoint list \<Rightarrow> string \<Rightarrow> string \<Rightarrow> ChartPoint list option" where
  "dailyForChart_rolling30_short fuel sortedDaily fromIso toIso =
     (if sortedDaily = [] then Some []
      else rollingLoop_short fuel (lookupOf sortedDaily) fromIso toIso [])"

section \<open>Sample data\<close>

text \<open>Two batches that both set the first of January 2025, the second one twice.\<close>

definition batch1 :: "DailyPoint list" where
  "batch1 = [\<lparr>date = ''2024-12-31'', generation_gwh = Fin 7\<rparr>,
             \<lparr>date = ''2025-01-01'', generation_gwh = Fin 1\<rparr>]"

definition batch2 :: "DailyPoint list" where
  "batch2 = [\<lparr>date = ''2025-01-01'', generation_gwh = Fin 2\<rparr>,
             \<lparr>date = ''2025-01-01'', generation_gwh = Fin 3\<rparr>]"


text \<open>A persisted object with one entry that is not valid and one that is.\<close>

definition badBlob :: json where
  "badBlob = JObj [(''not-a-date'', JNum (Fin (- 5))), (''2024-01-01'', JNum (Fin 7))]"

text \<open>A store with a single observation.\<close>

definition sparseDaily :: "DailyPoint list" where
  "sparseDaily = [\<lparr>date = ''2024-01-01'', generation_gwh = Fin 5\<rparr>]"

text \<open>
  Two stores for the monthly rollup: one with the same day of March in the years 999 and
  1000, and the specification's example, where February 2024 has 40 on days 1 to 10 and
  60 on days 11 to 28, and March 2024 has 50 up to its last observed day, the 10th.
\<close>

definition earlyDaily :: "DailyPoint list" where
  "earlyDaily = [\<lparr>date = ''0999-03-05'', generation_gwh = Fin 10\<rparr>,
                 \<lparr>date = ''1000-03-05'', generation_gwh = Fin 20\<rparr>]"

definition exampleDaily :: "DailyPoint list" where
  "exampleDaily = [\<lparr>date = ''2024-02-01'', generation_gwh = Fin 15\<rparr>,
                   \<lparr>date = ''2024-02-10'', generation_gwh = Fin 25\<rparr>,
                   \<lparr>date = ''2024-02-11'', generation_gwh = Fin 30\<rparr>,
                   \<lparr>date = ''2024-02-28'', generation_gwh = Fin 30\<rparr>,
                   \<lparr>date = ''2024-03-03'', generation_gwh = Fin 20\<rparr>,
                   \<lparr>date = ''2024-03-10'', generation_gwh = Fin 30\<rparr>]"

section \<open>The monthly rollup in the words of the specification\<close>

text \<open>
  The sum of a list of values, from the left as the loops add them; the values and the
  days of the month \<open>m\<close> in a list of observations; the date key of a day of a month; the
  month before a month and the same month one year earlier, on the calendar and written
  as YYYY-MM.
\<close>

definition jssum :: "jsnum list \<Rightarrow> jsnum" where
  "jssum vs = foldl jsadd (Fin 0) vs"

definition monthValues :: "DailyPoint list \<Rightarrow> string \<Rightarrow> jsnum list" where
  "monthValues es m = map generation_gwh (filter (\<lambda>d. monthKey (date d) = m) es)"

definition monthDays :: "DailyPoint list \<Rightarrow> string \<Rightarrow> nat list" where
  "monthDays es m = map (\<lambda>d. dayOfKey (date d)) (filter (\<lambda>d. monthKey (date d) = m) es)"

definition dateKey :: "string \<Rightarrow> nat \<Rightarrow> string" where
  "dateKey m day = m @ ''-'' @ padStart0 2 (showNat day)"

definition prevMonthKey :: "string \<Rightarrow> string" where
  "prevMonthKey m =
     (if getMonth m = 1 then padStart0 4 (showNat (getYear m - 1)) @ ''-12''
      else padStart0 4 (showNat (getYear m)) @ ''-'' @ padStart0 2 (showNat (getMonth m - 1)))"

definition prevYearKey :: "string \<Rightarrow> string" where
  "prevYearKey m =
     padStart0 4 (showNat (getYear m - 1)) @ ''-'' @ padStart0 2 (showNat (getMonth m))"

text \<open>
  The growth of a month's total against the days 1 to \<open>k\<close> of the month \<open>m\<close>, read from
  the store: \<open>null\<close> when the store has no observation on any of those days.
\<close>

definition comparable :: "store \<Rightarrow> string \<Rightarrow> nat \<Rightarrow> jsnum \<Rightarrow> jsnum option" where
  "comparable lk m k tot =
     (let vs = List.map_filter (\<lambda>day. lk (dateKey m day)) [1..<Suc k]
      in if vs = [] then None else growthPct tot (Some (jssum vs)))"

text \<open>The value that the rollup's map of days holds for a day, as the loop builds it.\<close>

definition dayAcc :: "DailyPoint list \<Rightarrow> string \<Rightarrow> nat \<Rightarrow> jsnum option" where
  "dayAcc es m day =
     foldl (\<lambda>acc d. if monthKey (date d) = m \<and> dayOfKey (date d) = day
                     then Some (jsadd (orZero acc) (generation_gwh d)) else acc) None es"

section \<open>Properties\<close>

subsection \<open>Growth percentage\<close>










subsection \<open>Merging records\<close>

lemma lastFor_snoc:
  "lastFor (xs @ [x]) k = (if date x = k then Some (generation_gwh x) else lastFor xs k)"
  by (simp add: lastFor_def)

lemma foldl_mapSet:
  assumes "n < length h"
  shows "length (foldl (\<lambda>hp r. mapSet hp n (date r) (generation_gwh r)) h inc) = length h
       \<and> (\<forall>a. a \<noteq> n \<longrightarrow> foldl (\<lambda>hp r. mapSet hp n (date r) (generation_gwh r)) h inc ! a = h ! a)
       \<and> (\<forall>k. (foldl (\<lambda>hp r. mapSet hp n (date r) (generation_gwh r)) h inc ! n) k
               = (case lastFor inc k of Some v \<Rightarrow> Some v | None \<Rightarrow> (h ! n) k))"
  using assms
proof (induction inc rule: rev_induct)
  case Nil
  then show ?case by (simp add: lastFor_def)
next
  case (snoc x xs)
  then show ?case by (auto simp: mapSet_def lastFor_snoc)
qed

text \<open>
  C6: \<open>mergeRecords\<close> returns a new map object; every object that existed before,
  the caller's store among them, is unchanged; in the new map a date of the batch has
  the value of the last batch record for that date, every other date has the value it had
  in the caller's store, and so no entry of the store is missing.
\<close>

theorem mergeRecords_last_write_wins:
  assumes "existingMap < length h"
      and "mergeRecords h existingMap incoming = (h', next)"
  shows "next = length h
       \<and> length h' = Suc (length h)
       \<and> (\<forall>a < length h. h' ! a = h ! a)
       \<and> (\<forall>k. (h' ! next) k =
               (case lastFor incoming k of Some v \<Rightarrow> Some v | None \<Rightarrow> (h ! existingMap) k))
       \<and> dom (h ! existingMap) \<subseteq> dom (h' ! next)"
proof -
  let ?h1 = "h @ [h ! existingMap]"
  let ?f = "\<lambda>hp r. mapSet hp (length h) (date r) (generation_gwh r)"
  have n: "next = length h" and h': "h' = foldl ?f ?h1 incoming"
    using assms(2) by (auto simp: mergeRecords_def newMapFrom_def)
  have lt: "length h < length ?h1" by simp
  note F = foldl_mapSet[OF lt, of incoming]
  have len: "length h' = Suc (length h)" using F h' by simp
  have old: "\<forall>a < length h. h' ! a = h ! a"
    using F h' by (auto simp: nth_append)
  have new: "\<forall>k. (h' ! next) k =
               (case lastFor incoming k of Some v \<Rightarrow> Some v | None \<Rightarrow> (h ! existingMap) k)"
    using F h' n by (auto simp: nth_append split: option.splits)
  have "dom (h ! existingMap) \<subseteq> dom (h' ! next)"
  proof
    fix k assume "k \<in> dom (h ! existingMap)"
    then obtain v where v: "(h ! existingMap) k = Some v" by auto
    from new have "(h' ! next) k =
        (case lastFor incoming k of Some w \<Rightarrow> Some w | None \<Rightarrow> (h ! existingMap) k)" by blast
    with v show "k \<in> dom (h' ! next)" by (cases "lastFor incoming k") auto
  qed
  then show ?thesis using n len old new by blast
qed

theorem mergeRecords_last_write_wins_witness:
  "(0::nat) < length [Map.empty :: store] \<and>
   (case mergeRecords [Map.empty] 0 batch1 of
      (h1, n1) \<Rightarrow>
        n1 < length h1 \<and> (h1 ! n1) ''2025-01-01'' = Some (Fin 1) \<and>
        (case mergeRecords h1 n1 batch2 of
           (h2, n2) \<Rightarrow>
             n2 = 2 \<and> h2 ! n1 = h1 ! n1 \<and> h2 ! 0 = Map.empty \<and>
             (h2 ! n2) ''2025-01-01'' = Some (Fin 3) \<and>
             (h2 ! n2) ''2024-12-31'' = Some (Fin 7)))"
proof -
  obtain h1 n1 where m1: "mergeRecords [Map.empty] 0 batch1 = (h1, n1)"
    by (cases "mergeRecords [Map.empty] 0 batch1")
  obtain h2 n2 where m2: "mergeRecords h1 n1 batch2 = (h2, n2)"
    by (cases "mergeRecords h1 n1 batch2")
  have l0: "(0::nat) < length [Map.empty :: store]" by simp
  note T1 = mergeRecords_last_write_wins [OF l0 m1]
  from T1 have n1: "n1 = 1" and len1: "length h1 = 2" and old1: "h1 ! 0 = Map.empty"
    by simp_all
  have l1: "n1 < length h1" using n1 len1 by simp
  note T2 = mergeRecords_last_write_wins [OF l1 m2]
  have a1: "lastFor batch1 ''2025-01-01'' = Some (Fin 1)"
    "lastFor batch1 ''2024-12-31'' = Some (Fin 7)"
    by (simp_all add: lastFor_def batch1_def)
  have a2: "lastFor batch2 ''2025-01-01'' = Some (Fin 3)" "lastFor batch2 ''2024-12-31'' = None"
    by (simp_all add: lastFor_def batch2_def)
  from T1 have "\<forall>k. (h1 ! n1) k =
      (case lastFor batch1 k of Some v \<Rightarrow> Some v | None \<Rightarrow> ([Map.empty] ! 0) k)" by blast
  then have v1: "(h1 ! n1) ''2025-01-01'' = Some (Fin 1)" "(h1 ! n1) ''2024-12-31'' = Some (Fin 7)"
    using a1 by simp_all
  from T2 have q: "\<forall>k. (h2 ! n2) k =
      (case lastFor batch2 k of Some v \<Rightarrow> Some v | None \<Rightarrow> (h1 ! n1) k)" by blast
  have v2: "(h2 ! n2) ''2025-01-01'' = Some (Fin 3)" "(h2 ! n2) ''2024-12-31'' = Some (Fin 7)"
    using q a2 v1 by simp_all
  from T2 have n2: "n2 = 2" and keep: "\<forall>a < length h1. h2 ! a = h1 ! a"
    using len1 by simp_all
  from keep l1 have k1: "h2 ! n1 = h1 ! n1" by blast
  from keep len1 old1 have k0: "h2 ! 0 = Map.empty" by simp
  show ?thesis using m1 m2 l1 v1 v2 n2 k1 k0 by simp
qed

subsection \<open>Evaluation on concrete inputs\<close>

lemmas str_eval = trim_def isWhite_def isDigit_def digitVal_def digitsVal_def digitChar_def
  showNat.simps padStart0_def slice_def
lemmas date_eval = isDDMMYYYY_def isYYYYMMDD_def dateUTC_def normDate.simps daysInMonth_def
  isLeap_def parseDate_def parseISOKey_def parseInputDate_def Let_def
lemmas num_eval = Number_def nonDecimal_def strDecimal_def unsignedDecimal_def mantissaVal_def
  exponentVal_def isExpChar_def allDigits_def toDouble_def baseDigitVal_def
lemmas csv_eval = csvParse_def csvRows_def csvLines_def csvCols_def stripHeader_def isHeader_def
  toLowerCase_def lowerChar_def upperChars_def lowerChars_def

lemma parse_18: "parseInputDate ''18-12-2025'' = Some ''2025-12-18''"
  by (simp add: str_eval date_eval)
lemma num_4: "Number ''4'' = Fin 4"
  by (simp add: str_eval num_eval Let_def)


lemma rows_thousands:
  "stripHeader (csvRows ''18-12-2025,4,140'') = [[''18-12-2025'', ''4'', ''140'']]"
  by (simp add: csv_eval trim_def isWhite_def)



subsection \<open>CSV parsing\<close>







lemma splitLines_no_nl: "CHR 0x0A \<notin> set s \<Longrightarrow> splitLines s = [s]"
  by (induction s rule: splitLines.induct) auto

lemma splitOn_no_sep: "c \<notin> set s \<Longrightarrow> splitOn c s = [s]"
  by (induction s) auto

lemma splitOn_snoc_sep: "c \<notin> set s \<Longrightarrow> splitOn c (s @ [c]) = [s, []]"
  by (induction s) auto

lemma trim_id: "\<forall>c \<in> set s. \<not> isWhite c \<Longrightarrow> trim s = s"
proof -
  assume a: "\<forall>c \<in> set s. \<not> isWhite c"
  have d: "\<And>t. \<forall>c \<in> set t. \<not> isWhite c \<Longrightarrow> dropWhile isWhite t = t"
    by (case_tac t) auto
  show ?thesis using a by (simp add: trim_def d)
qed

lemma trim_Nil: "trim [] = []" by (simp add: trim_def)

lemma digit_props:
  "isDigit c \<Longrightarrow> c \<noteq> CHR 0x0A \<and> c \<noteq> CHR '','' \<and> \<not> isWhite c"
  by (auto simp: isDigit_def isWhite_def)

lemma isDDMMYYYY_iff:
  "isDDMMYYYY t \<longleftrightarrow> (\<exists>d1 d2 m1 m2 y1 y2 y3 y4.
      t = [d1, d2, CHR ''-'', m1, m2, CHR ''-'', y1, y2, y3, y4] \<and>
      isDigit d1 \<and> isDigit d2 \<and> isDigit m1 \<and> isDigit m2 \<and>
      isDigit y1 \<and> isDigit y2 \<and> isDigit y3 \<and> isDigit y4)"
  unfolding isDDMMYYYY_def by (simp split: list.split) blast

lemma isYYYYMMDD_iff:
  "isYYYYMMDD t \<longleftrightarrow> (\<exists>y1 y2 y3 y4 m1 m2 d1 d2.
      t = [y1, y2, y3, y4, CHR ''-'', m1, m2, CHR ''-'', d1, d2] \<and>
      isDigit y1 \<and> isDigit y2 \<and> isDigit y3 \<and> isDigit y4 \<and>
      isDigit m1 \<and> isDigit m2 \<and> isDigit d1 \<and> isDigit d2)"
  unfolding isYYYYMMDD_def by (simp split: list.split) blast

lemma isDDMMYYYY_chars: "isDDMMYYYY d \<Longrightarrow> dateChars d"
  unfolding isDDMMYYYY_iff by (auto simp: dateChars_def)

lemma isYYYYMMDD_chars: "isYYYYMMDD d \<Longrightarrow> dateChars d"
  unfolding isYYYYMMDD_iff by (auto simp: dateChars_def)

lemma dash_props:
  "CHR ''-'' \<noteq> CHR 0x0A" "CHR ''-'' \<noteq> CHR '',''" "\<not> isWhite (CHR ''-'')"
  by (simp_all add: isWhite_def)

lemma dateChars_props:
  assumes "dateChars d"
  shows "CHR 0x0A \<notin> set d" "CHR '','' \<notin> set d" "\<forall>c \<in> set d. \<not> isWhite c" "d \<noteq> []"
proof -
  have a: "\<forall>c \<in> set d. isDigit c \<or> c = CHR ''-''" and b: "d \<noteq> []"
    using assms by (simp_all add: dateChars_def)
  have c: "\<forall>c \<in> set d. c \<noteq> CHR 0x0A \<and> c \<noteq> CHR '','' \<and> \<not> isWhite c"
  proof
    fix c assume "c \<in> set d"
    with a have "isDigit c \<or> c = CHR ''-''" by blast
    then show "c \<noteq> CHR 0x0A \<and> c \<noteq> CHR '','' \<and> \<not> isWhite c"
      using digit_props [of c] dash_props by blast
  qed
  show "CHR 0x0A \<notin> set d" using c by blast
  show "CHR '','' \<notin> set d" using c by blast
  show "\<forall>c \<in> set d. \<not> isWhite c" using c by blast
  show "d \<noteq> []" by (rule b)
qed

lemma parseInputDate_pattern:
  "parseInputDate s = Some key \<Longrightarrow> isDDMMYYYY (trim s) \<or> isYYYYMMDD (trim s)"
  unfolding parseInputDate_def Let_def
  by (cases "isDDMMYYYY (trim s)"; cases "isYYYYMMDD (trim s)") simp_all

lemma showNat_nonempty: "showNat n \<noteq> []"
  by (subst showNat.simps) simp

lemma parseISOKey_nonempty: "parseISOKey s = Some key \<Longrightarrow> key \<noteq> []"
  unfolding parseISOKey_def isYYYYMMDD_def by (cases s) (auto split: if_splits option.splits)

lemma parseInputDate_nonempty: "parseInputDate s = Some key \<Longrightarrow> key \<noteq> []"
  unfolding parseInputDate_def Let_def
  by (cases "isDDMMYYYY (trim s)"; cases "isYYYYMMDD (trim s)")
     (auto simp: showNat_nonempty parseISOKey_nonempty split: if_splits)

lemma Number_empty: "Number [] = Fin 0"
  by (simp add: Number_def trim_def)

lemma csvRow_empty_value:
  "parseInputDate d = Some key \<Longrightarrow>
   csvRow i (d # [] # rest) = Inr \<lparr>date = key, generation_gwh = Fin 0\<rparr>"
  by (simp add: csvRow_def removeCommas_def Number_empty parseInputDate_nonempty)

lemma csvRows_single:
  assumes "dateChars d"
  shows "csvRows (d @ '','') = [[d, []]]"
proof -
  note P = dateChars_props [OF assms]
  have nl: "CHR 0x0A \<notin> set (d @ '','')" using P by simp
  have w: "\<forall>c \<in> set (d @ '',''). \<not> isWhite c" using P by (simp add: isWhite_def)
  have "csvLines (d @ '','') = [d @ '','']"
    using P by (simp add: csvLines_def splitLines_no_nl [OF nl] trim_id [OF w])
  moreover have "csvCols (d @ '','') = [d, []]"
    using P by (simp add: csvCols_def splitOn_snoc_sep trim_id trim_Nil)
  ultimately show ?thesis by (simp add: csvRows_def)
qed

lemma not_header_empty: "\<not> isHeader [d, []]"
  by (simp add: isHeader_def toLowerCase_def)




text \<open>
  C8: on the line \<open>18-12-2025,4,140\<close> the split at commas comes first, so the value
  column is \<open>4\<close> and the record's value is 4, not 4140: the later removal of commas from
  the value column finds none.
\<close>

theorem csvParse_thousands_separator:
  "csvParse ''18-12-2025,4,140'' = ([\<lparr>date = ''2025-12-18'', generation_gwh = Fin 4\<rparr>], [])"
  by (simp add: csvParse_def rows_thousands csvRow_def removeCommas_def parse_18 num_4)

text \<open>
  C10: a row whose date column is accepted by \<open>parseInputDate\<close> and whose value column
  is empty gives the record with that date and the value 0, and no error; it is not taken
  for a header; and the one-line text made of such a date and a comma parses to that one
  record and no error.
\<close>

theorem csvParse_empty_value_is_zero:
  assumes "parseInputDate d = Some key" and "trim d = d"
  shows "csvRow i (d # [] # rest) = Inr \<lparr>date = key, generation_gwh = Fin 0\<rparr> \<and>
         \<not> isHeader (d # [] # rest) \<and>
         csvParse (d @ '','') = ([\<lparr>date = key, generation_gwh = Fin 0\<rparr>], [])"
proof -
  have dc: "dateChars d"
    using parseInputDate_pattern [OF assms(1)] assms(2) isDDMMYYYY_chars isYYYYMMDD_chars by auto
  have "csvParse (d @ '','') = ([\<lparr>date = key, generation_gwh = Fin 0\<rparr>], [])"
    by (simp add: csvParse_def csvRows_single [OF dc] stripHeader_def not_header_empty
        csvRow_empty_value [OF assms(1)])
  moreover have "\<not> isHeader (d # [] # rest)"
    by (simp add: isHeader_def toLowerCase_def)
  ultimately show ?thesis using csvRow_empty_value [OF assms(1)] by simp
qed

theorem csvParse_empty_value_is_zero_witness:
  "parseInputDate ''18-12-2025'' = Some ''2025-12-18'' \<and> trim ''18-12-2025'' = ''18-12-2025'' \<and>
   csvParse ''18-12-2025,'' = ([\<lparr>date = ''2025-12-18'', generation_gwh = Fin 0\<rparr>], [])"
proof -
  have t: "trim ''18-12-2025'' = ''18-12-2025''" by (simp add: trim_def isWhite_def)
  from csvParse_empty_value_is_zero [OF parse_18 t] parse_18 t show ?thesis by simp
qed

subsection \<open>Dates\<close>

lemma normDate_range:
  "normDate y m d = (Y, M, D) \<Longrightarrow> 0 \<le> M \<and> M \<le> 11 \<and> 1 \<le> D \<and> D \<le> daysInMonth Y M"
proof (induction y m d rule: normDate.induct)
  case (1 y m d)
  show ?case
  proof (cases "m < 0 \<or> 11 < m")
    case True
    with "1.prems" have "normDate (y + m div 12) (m mod 12) d = (Y, M, D)"
      by (subst (asm) normDate.simps) simp
    with "1.IH"(1) True show ?thesis by blast
  next
    case mr: False
    show ?thesis
    proof (cases "d < 1")
      case True
      let ?y = "if m = 0 then y - 1 else y" and ?m = "if m = 0 then 11 else m - 1"
      from "1.prems" mr True have "normDate ?y ?m (d + daysInMonth ?y ?m) = (Y, M, D)"
        by (subst (asm) normDate.simps) (simp add: Let_def)
      with "1.IH"(2)[OF mr True refl refl] show ?thesis by blast
    next
      case dl: False
      show ?thesis
      proof (cases "daysInMonth y m < d")
        case True
        let ?y = "if m = 11 then y + 1 else y" and ?m = "if m = 11 then 0 else m + 1"
        from "1.prems" mr dl True have "normDate ?y ?m (d - daysInMonth y m) = (Y, M, D)"
          by (subst (asm) normDate.simps) (simp add: Let_def)
        with "1.IH"(3)[OF mr dl True refl refl] show ?thesis by blast
      next
        case False
        with "1.prems" mr dl have "(y, m, d) = (Y, M, D)"
          by (subst (asm) normDate.simps) simp
        with mr dl False show ?thesis by auto
      qed
    qed
  qed
qed

lemma normDate_id:
  "0 \<le> m \<Longrightarrow> m \<le> 11 \<Longrightarrow> 1 \<le> d \<Longrightarrow> d \<le> daysInMonth y m \<Longrightarrow> normDate y m d = (y, m, d)"
  by (subst normDate.simps) simp

lemma daysInMonth_pos: "1 \<le> daysInMonth y m"
  by (simp add: daysInMonth_def)

lemma normDate_year_lower:
  "normDate y m d = (Y, M, D) \<Longrightarrow> - 1 \<le> m \<Longrightarrow> 0 \<le> d \<Longrightarrow>
     y - 1 \<le> Y \<and> (0 \<le> m \<and> (1 \<le> d \<or> 1 \<le> m) \<longrightarrow> y \<le> Y)"
proof (induction y m d rule: normDate.induct)
  case (1 y m d)
  show ?case
  proof (cases "m < 0 \<or> 11 < m")
    case True
    with "1.prems" have eq: "normDate (y + m div 12) (m mod 12) d = (Y, M, D)"
      by (subst (asm) normDate.simps) simp
    have mm: "0 \<le> m mod 12" "- 1 \<le> m mod 12" by simp_all
    note IH = "1.IH"(1)[OF True eq mm(2) "1.prems"(3)]
    show ?thesis
    proof (cases "m < 0")
      case True
      with "1.prems"(2) have "m = - 1" by simp
      then have "m div 12 = - 1" "m mod 12 = 11" by simp_all
      with IH \<open>m = - 1\<close> show ?thesis by simp
    next
      case False
      with True have "12 \<le> m" by simp
      then have "1 \<le> m div 12" by simp
      with IH show ?thesis by simp
    qed
  next
    case mr: False
    show ?thesis
    proof (cases "d < 1")
      case True
      with "1.prems"(3) have d0: "d = 0" by simp
      let ?y = "if m = 0 then y - 1 else y" and ?m = "if m = 0 then 11 else m - 1"
      from "1.prems"(1) mr True have eq: "normDate ?y ?m (d + daysInMonth ?y ?m) = (Y, M, D)"
        by (subst (asm) normDate.simps) (simp add: Let_def)
      have a: "- 1 \<le> ?m" using mr by simp
      have b: "0 \<le> d + daysInMonth ?y ?m" "1 \<le> d + daysInMonth ?y ?m"
        using d0 daysInMonth_pos [of ?y ?m] by simp_all
      note IH = "1.IH"(2)[OF mr True refl refl eq a b(1)]
      have "0 \<le> ?m" using mr by simp
      with IH b(2) have "?y \<le> Y" by blast
      then show ?thesis using d0 by (auto split: if_splits)
    next
      case dl: False
      show ?thesis
      proof (cases "daysInMonth y m < d")
        case True
        let ?y = "if m = 11 then y + 1 else y" and ?m = "if m = 11 then 0 else m + 1"
        from "1.prems"(1) mr dl True have eq: "normDate ?y ?m (d - daysInMonth y m) = (Y, M, D)"
          by (subst (asm) normDate.simps) (simp add: Let_def)
        have a: "- 1 \<le> ?m" "0 \<le> ?m" using mr by simp_all
        have b: "0 \<le> d - daysInMonth y m" "1 \<le> d - daysInMonth y m" using True by simp_all
        note IH = "1.IH"(3)[OF mr dl True refl refl eq a(1) b(1)]
        with a(2) b(2) have "?y \<le> Y" by blast
        then show ?thesis by (auto split: if_splits)
      next
        case False
        with "1.prems"(1) mr dl have "(y, m, d) = (Y, M, D)"
          by (subst (asm) normDate.simps) simp
        then show ?thesis by simp
      qed
    qed
  qed
qed

lemma isLeap_int: "isLeap (int y) = (y mod 4 = 0 \<and> (y mod 400 = 0 \<or> y mod 100 \<noteq> 0))"
proof -
  have "\<And>k::nat. (int y mod int k = 0) = (y mod k = 0)"
    by (metis of_nat_eq_0_iff of_nat_mod)
  from this [of 4] this [of 100] this [of 400] show ?thesis
    by (simp add: isLeap_def)
qed

lemma realDate_iff:
  "realDate y m d \<longleftrightarrow>
     0 \<le> int m - 1 \<and> int m - 1 \<le> 11 \<and> 1 \<le> int d \<and> int d \<le> daysInMonth (int y) (int m - 1)"
  unfolding realDate_def daysInMonth_def isLeap_int by auto

lemma dateUTC_fixed_iff:
  assumes "- 1 \<le> m" "0 \<le> d" "0 \<le> y"
  shows "dateUTC y m d = (y, m, d) \<longleftrightarrow>
           100 \<le> y \<and> 0 \<le> m \<and> m \<le> 11 \<and> 1 \<le> d \<and> d \<le> daysInMonth y m"
proof (cases "y \<le> 99")
  case True
  have "dateUTC y m d \<noteq> (y, m, d)"
  proof
    assume "dateUTC y m d = (y, m, d)"
    then have "normDate (1900 + y) m d = (y, m, d)"
      using True assms(3) by (simp add: dateUTC_def)
    from normDate_year_lower [OF this assms(1,2)] show False by simp
  qed
  with True show ?thesis by simp
next
  case False
  then have u: "dateUTC y m d = normDate y m d" by (simp add: dateUTC_def)
  show ?thesis
  proof
    assume "dateUTC y m d = (y, m, d)"
    with u have "normDate y m d = (y, m, d)" by simp
    from normDate_range [OF this] False show
      "100 \<le> y \<and> 0 \<le> m \<and> m \<le> 11 \<and> 1 \<le> d \<and> d \<le> daysInMonth y m" by simp
  next
    assume "100 \<le> y \<and> 0 \<le> m \<and> m \<le> 11 \<and> 1 \<le> d \<and> d \<le> daysInMonth y m"
    then show "dateUTC y m d = (y, m, d)" using u by (simp add: normDate_id)
  qed
qed

lemma parseInputDate_display:
  assumes "isDDMMYYYY (trim s)"
  shows "parseInputDate s =
     (if realDate (digitsVal (slice 6 10 (trim s))) (digitsVal (slice 3 5 (trim s)))
           (digitsVal (slice 0 2 (trim s))) \<and> 100 \<le> digitsVal (slice 6 10 (trim s))
      then Some (showNat (digitsVal (slice 6 10 (trim s))) @ ''-'' @
                 padStart0 2 (showNat (digitsVal (slice 3 5 (trim s)))) @ ''-'' @
                 padStart0 2 (showNat (digitsVal (slice 0 2 (trim s)))))
      else None)"
proof -
  let ?y = "digitsVal (slice 6 10 (trim s))" and ?m = "digitsVal (slice 3 5 (trim s))"
    and ?d = "digitsVal (slice 0 2 (trim s))"
  have "dateUTC (int ?y) (int ?m - 1) (int ?d) = (int ?y, int ?m - 1, int ?d) \<longleftrightarrow>
        realDate ?y ?m ?d \<and> 100 \<le> ?y"
    by (subst dateUTC_fixed_iff) (auto simp: realDate_iff)
  then show ?thesis using assms by (simp add: parseInputDate_def Let_def)
qed

lemma patterns_disjoint: "isDDMMYYYY t \<Longrightarrow> \<not> isYYYYMMDD t"
  by (auto simp: isDDMMYYYY_def isYYYYMMDD_def isDigit_def split: list.splits)

lemma parseISOKey_iso:
  assumes "isYYYYMMDD t"
  shows "parseISOKey t =
     (if 1 \<le> digitsVal (slice 5 7 t) \<and> digitsVal (slice 5 7 t) \<le> 12 \<and>
         1 \<le> digitsVal (slice 8 10 t) \<and> digitsVal (slice 8 10 t) \<le> 31
      then Some t else None)"
  using assms by (simp add: parseISOKey_def parseDate_def Let_def)



lemma of_char_inj_nat: "(of_char c :: nat) = of_char k \<Longrightarrow> c = k"
  by simp

lemma isDigit_cases:
  assumes "isDigit c"
  shows "c = CHR ''0'' \<or> c = CHR ''1'' \<or> c = CHR ''2'' \<or> c = CHR ''3'' \<or> c = CHR ''4'' \<or>
      c = CHR ''5'' \<or> c = CHR ''6'' \<or> c = CHR ''7'' \<or> c = CHR ''8'' \<or> c = CHR ''9''"
proof -
  let ?n = "of_char c :: nat"
  from assms have "?n = 48 \<or> ?n = 49 \<or> ?n = 50 \<or> ?n = 51 \<or> ?n = 52 \<or> ?n = 53 \<or> ?n = 54 \<or>
      ?n = 55 \<or> ?n = 56 \<or> ?n = 57"
    unfolding isDigit_def by arith
  moreover have "?n = 48 \<Longrightarrow> c = CHR ''0''" using of_char_inj_nat [of c "CHR ''0''"] by simp
  moreover have "?n = 49 \<Longrightarrow> c = CHR ''1''" using of_char_inj_nat [of c "CHR ''1''"] by simp
  moreover have "?n = 50 \<Longrightarrow> c = CHR ''2''" using of_char_inj_nat [of c "CHR ''2''"] by simp
  moreover have "?n = 51 \<Longrightarrow> c = CHR ''3''" using of_char_inj_nat [of c "CHR ''3''"] by simp
  moreover have "?n = 52 \<Longrightarrow> c = CHR ''4''" using of_char_inj_nat [of c "CHR ''4''"] by simp
  moreover have "?n = 53 \<Longrightarrow> c = CHR ''5''" using of_char_inj_nat [of c "CHR ''5''"] by simp
  moreover have "?n = 54 \<Longrightarrow> c = CHR ''6''" using of_char_inj_nat [of c "CHR ''6''"] by simp
  moreover have "?n = 55 \<Longrightarrow> c = CHR ''7''" using of_char_inj_nat [of c "CHR ''7''"] by simp
  moreover have "?n = 56 \<Longrightarrow> c = CHR ''8''" using of_char_inj_nat [of c "CHR ''8''"] by simp
  moreover have "?n = 57 \<Longrightarrow> c = CHR ''9''" using of_char_inj_nat [of c "CHR ''9''"] by simp
  ultimately show ?thesis by blast
qed

lemma digitChar_digitVal: "isDigit c \<Longrightarrow> digitChar (digitVal c) = c"
  using isDigit_cases [of c] by (auto simp: digitChar_def digitVal_def)

lemma digitVal_lt: "isDigit c \<Longrightarrow> digitVal c < 10"
  by (auto simp: isDigit_def digitVal_def)

lemma digitVal_zero: "isDigit c \<Longrightarrow> digitVal c = 0 \<Longrightarrow> c = CHR ''0''"
  using isDigit_cases [of c] by (auto simp: digitVal_def)

lemma showNat_small: "n < 10 \<Longrightarrow> showNat n = [digitChar n]"
  by (subst showNat.simps) simp

lemma showNat_step: "0 < n \<Longrightarrow> d < 10 \<Longrightarrow> showNat (n * 10 + d) = showNat n @ [digitChar d]"
  by (subst showNat.simps) simp

lemma show2:
  assumes "isDigit a" "isDigit b"
  shows "padStart0 2 (showNat (digitsVal [a, b])) = [a, b]"
proof (cases "digitVal a = 0")
  case True
  then have "a = CHR ''0''" using assms(1) digitVal_zero by blast
  moreover have "showNat (digitsVal [a, b]) = [b]"
    using True assms(2) by (simp add: digitsVal_def showNat_small digitVal_lt digitChar_digitVal)
  ultimately show ?thesis by (simp add: padStart0_def)
next
  case False
  then have "showNat (digitsVal [a, b]) = [a, b]"
    using assms
    by (simp add: digitsVal_def showNat_step showNat_small digitVal_lt digitChar_digitVal)
  then show ?thesis by (simp add: padStart0_def)
qed

lemma show4:
  assumes "isDigit a" "isDigit b" "isDigit c" "isDigit d" "1000 \<le> digitsVal [a, b, c, d]"
  shows "showNat (digitsVal [a, b, c, d]) = [a, b, c, d]"
proof -
  have "digitVal a \<noteq> 0"
  proof
    assume "digitVal a = 0"
    then have "digitsVal [a, b, c, d] < 1000"
      using digitVal_lt [OF assms(2)] digitVal_lt [OF assms(3)] digitVal_lt [OF assms(4)]
      by (simp add: digitsVal_def)
    with assms(5) show False by simp
  qed
  then have a0: "0 < digitVal a" by simp
  let ?a = "digitVal a" and ?b = "digitVal b" and ?c = "digitVal c" and ?d = "digitVal d"
  have e: "digitsVal [a, b, c, d] = ((?a * 10 + ?b) * 10 + ?c) * 10 + ?d"
    by (simp add: digitsVal_def)
  have s1: "showNat ?a = [a]"
    using assms(1) by (simp add: showNat_small digitVal_lt digitChar_digitVal)
  have s2: "showNat (?a * 10 + ?b) = [a, b]"
    using a0 assms(2) s1 by (simp only: showNat_step digitVal_lt digitChar_digitVal) simp
  have s3: "showNat ((?a * 10 + ?b) * 10 + ?c) = [a, b, c]"
  proof -
    have "0 < ?a * 10 + ?b" using a0 by simp
    from showNat_step [OF this digitVal_lt [OF assms(3)]] s2 assms(3)
    show ?thesis by (simp only: digitChar_digitVal) simp
  qed
  have s4: "showNat (((?a * 10 + ?b) * 10 + ?c) * 10 + ?d) = [a, b, c, d]"
  proof -
    have "0 < (?a * 10 + ?b) * 10 + ?c" using a0 by simp
    from showNat_step [OF this digitVal_lt [OF assms(4)]] s3 assms(4)
    show ?thesis by (simp only: digitChar_digitVal) simp
  qed
  show ?thesis by (simp only: e s4)
qed

lemma digit_not_dash: "isDigit c \<Longrightarrow> c \<noteq> CHR ''-''"
  by (auto simp: isDigit_def)

lemma digit_not_white: "isDigit c \<Longrightarrow> \<not> isWhite c"
  by (auto simp: isDigit_def isWhite_def)

lemma parse_0999: "parseInputDate ''05-03-0999'' = Some ''999-03-05''"
  by (simp add: str_eval date_eval)
lemma parse_0050: "parseInputDate ''05-03-0050'' = None"
  by (simp add: str_eval date_eval)






lemma roundtrip_from_1000:
  assumes "isDDMMYYYY s"
      and "realDate (digitsVal (slice 6 10 s)) (digitsVal (slice 3 5 s)) (digitsVal (slice 0 2 s))"
      and "1000 \<le> digitsVal (slice 6 10 s)"
  shows "formatDDMMYYYY (parseInputDate s) = s \<and> formatDDMMYYYY_short (parseInputDate s) = s"
proof -
  from assms(1) obtain d1 d2 m1 m2 y1 y2 y3 y4 where
    s: "s = [d1, d2, CHR ''-'', m1, m2, CHR ''-'', y1, y2, y3, y4]" and
    dg: "isDigit d1" "isDigit d2" "isDigit m1" "isDigit m2"
        "isDigit y1" "isDigit y2" "isDigit y3" "isDigit y4"
    unfolding isDDMMYYYY_iff by blast
  have t: "trim s = s"
    using dg by (simp add: s trim_def digit_not_white)
  have sl: "slice 6 10 s = [y1, y2, y3, y4]" "slice 3 5 s = [m1, m2]" "slice 0 2 s = [d1, d2]"
    by (simp_all add: s slice_def)
  have y: "showNat (digitsVal [y1, y2, y3, y4]) = [y1, y2, y3, y4]"
    using show4 [OF dg(5-8)] assms(3) sl by simp
  define k where "k = [y1, y2, y3, y4, CHR ''-'', m1, m2, CHR ''-'', d1, d2]"
  have p: "parseInputDate s = Some k"
    using parseInputDate_display [of s] assms t sl y show2 [OF dg(3,4)] show2 [OF dg(1,2)]
    by (simp add: k_def)
  have i: "isYYYYMMDD k" "k \<noteq> []"
    using dg by (simp_all add: isYYYYMMDD_def k_def)
  have sp: "splitOn (CHR ''-'') k = [[y1, y2, y3, y4], [m1, m2], [d1, d2]]"
    using dg by (simp add: digit_not_dash k_def)
  have "formatDDMMYYYY (Some k) = s"
    by (simp add: formatDDMMYYYY_def i sp s)
  moreover have "formatDDMMYYYY_short (Some k) = s"
    by (simp add: formatDDMMYYYY_short_def partOr_def i sp s)
  ultimately show ?thesis by (simp add: p)
qed


text \<open>
  C9: \<open>05-03-0999\<close> is a valid DD-MM-YYYY date, and \<open>parseInputDate\<close> accepts it, but
  the result is \<open>999-03-05\<close>, the year written without its leading zero; formatting it
  back gives the sentinel (in the shorter variant \<open>05-03-999\<close>), not the input. By
  \<open>roundtrip_from_1000\<close> the round trip holds from the year 1000 on.
\<close>

theorem roundtrip_fails_below_1000:
  "isDDMMYYYY ''05-03-0999'' \<and> realDate 999 3 5 \<and>
   parseInputDate ''05-03-0999'' = Some ''999-03-05'' \<and>
   formatDDMMYYYY (parseInputDate ''05-03-0999'') = unknownMarker \<and>
   formatDDMMYYYY (parseInputDate ''05-03-0999'') \<noteq> ''05-03-0999'' \<and>
   formatDDMMYYYY_short (parseInputDate ''05-03-0999'') = ''05-03-999''"
  by (simp add: parse_0999 formatDDMMYYYY_def formatDDMMYYYY_short_def partOr_def unknownMarker_def
      realDate_def) (simp add: isDDMMYYYY_def isYYYYMMDD_def isDigit_def)

subsection \<open>Hydration\<close>

text \<open>
  The initialiser of src/App.tsx loads only entries whose key \<open>parseISOKey\<close> accepts and
  whose value, read with \<open>Number\<close>, is finite and not negative; an entry that fails is not
  loaded; a blob that does not parse gives the empty store.
\<close>

lemma parseISOKey_fixed: "parseISOKey k = Some d \<Longrightarrow> d = k"
  by (auto simp: parseISOKey_def split: if_splits option.splits)

lemma hydrateStep_valid:
  assumes "\<forall>k g. m k = Some g \<longrightarrow> parseISOKey k = Some k \<and> isFinite g \<and> \<not> isNegative g"
  shows "\<forall>k g. hydrateStep m kv k = Some g \<longrightarrow> parseISOKey k = Some k \<and> isFinite g \<and> \<not> isNegative g"
proof (cases "entryOk kv")
  case False
  then show ?thesis using assms by (simp add: hydrateStep_def)
next
  case True
  then obtain d where d: "parseISOKey (fst kv) = Some d"
    and v: "isFinite (numberOfJson (snd kv))" "\<not> isNegative (numberOfJson (snd kv))"
    by (auto simp: entryOk_def split: option.splits)
  from d have "d = fst kv" by (rule parseISOKey_fixed)
  with d v True assms show ?thesis by (auto simp: hydrateStep_def)
qed

lemma foldl_hydrateStep_valid:
  assumes "\<forall>k g. m k = Some g \<longrightarrow> parseISOKey k = Some k \<and> isFinite g \<and> \<not> isNegative g"
  shows "\<forall>k g. foldl hydrateStep m es k = Some g \<longrightarrow>
           parseISOKey k = Some k \<and> isFinite g \<and> \<not> isNegative g"
  using assms
proof (induction es arbitrary: m)
  case Nil
  then show ?case by simp
next
  case (Cons kv es)
  from Cons.IH [OF hydrateStep_valid [OF Cons.prems]] show ?case by simp
qed

lemma foldl_hydrateStep_dropped:
  assumes "\<forall>kv \<in> set es. fst kv = k \<longrightarrow> \<not> entryOk kv"
  shows "foldl hydrateStep m es k = m k"
  using assms
proof (induction es arbitrary: m)
  case Nil
  then show ?case by simp
next
  case (Cons kv es)
  have "hydrateStep m kv k = m k"
  proof (cases "entryOk kv")
    case False
    then show ?thesis by (simp add: hydrateStep_def)
  next
    case True
    with Cons.prems have ne: "fst kv \<noteq> k" by auto
    from True obtain d where d: "parseISOKey (fst kv) = Some d"
      by (auto simp: entryOk_def split: option.splits)
    then have "d = fst kv" by (rule parseISOKey_fixed)
    with d ne True show ?thesis by (simp add: hydrateStep_def)
  qed
  with Cons show ?case by simp
qed

lemma hydrate_cases:
  "hydrate P raw = Map.empty \<or>
   (\<exists>r obj es. raw = Some r \<and> P r = Some obj \<and> objectEntries (orEmptyObject obj) = Some es \<and>
      hydrate P raw = foldl hydrateStep Map.empty es)"
  by (auto simp: hydrate_def split: option.splits)

lemma hydrate_validates:
  "hydrate P raw k = Some g \<Longrightarrow> parseISOKey k = Some k \<and> isFinite g \<and> \<not> isNegative g"
  using hydrate_cases [of P raw] foldl_hydrateStep_valid [of Map.empty] by fastforce

lemma hydrate_corrupt: "P r = None \<Longrightarrow> hydrate P (Some r) = Map.empty"
  by (simp add: hydrate_def)

lemma hydrate_drops_invalid:
  assumes "P r = Some (JObj es)" "r \<noteq> []" "\<forall>kv \<in> set es. fst kv = k \<longrightarrow> \<not> entryOk kv"
  shows "hydrate P (Some r) k = None"
  using assms foldl_hydrateStep_dropped [of es k Map.empty] by (simp add: hydrate_def)


text \<open>
  C7: the shorter variant's initialiser validates nothing. From a blob that holds the
  key \<open>not-a-date\<close> with the value -5 it loads that entry, where the initialiser of
  src/App.tsx drops it and keeps the valid entry.
\<close>

theorem hydrate_short_loads_invalid:
  "hydrate_short (\<lambda>r. Some badBlob) (Some ''blob'') ''not-a-date'' = Some (Fin (- 5)) \<and>
   parseISOKey ''not-a-date'' = None \<and> isNegative (Fin (- 5)) \<and>
   hydrate (\<lambda>r. Some badBlob) (Some ''blob'') ''not-a-date'' = None \<and>
   hydrate (\<lambda>r. Some badBlob) (Some ''blob'') ''2024-01-01'' = Some (Fin 7)"
  by (simp add: hydrate_short_def hydrate_def badBlob_def hydrateStep_def entryOk_def
      str_eval date_eval)

subsection \<open>Rolling 30-day sums\<close>

lemma sumRangeLoop_unfold:
  "0 < n \<Longrightarrow> sumRangeLoop n lk cur endIso acc =
     (if cur \<le> endIso then
        (case isoPlusDays cur 1 of
           None \<Rightarrow> None
         | Some nxt \<Rightarrow>
             sumRangeLoop (n - 1) lk nxt endIso
               (case lk cur of None \<Rightarrow> acc | Some v \<Rightarrow> (jsadd (fst acc) v, True)))
      else Some acc)"
  by (cases n) (auto split: option.splits)

lemma rollingLoop_unfold:
  "0 < n \<Longrightarrow> rollingLoop n fuel lk cur t points =
     (if cur \<le> t then
        (case rollingPoint fuel lk cur of
           None \<Rightarrow> None
         | Some p \<Rightarrow>
             (case isoPlusDays cur 1 of
                None \<Rightarrow> None
              | Some nxt \<Rightarrow> rollingLoop (n - 1) fuel lk nxt t (points @ [p])))
      else Some points)"
  by (cases n) (auto split: option.splits)

lemmas date_ev = parseDate_def isYYYYMMDD_def isDigit_def slice_def digitsVal_def digitVal_def
  normDate.simps daysInMonth_def isLeap_def isoPlusDays_def isoMinusDays_def Let_def
  showNat.simps digitChar_def padStart0_def

lemma lk: "lookupOf sparseDaily = [''2024-01-01'' \<mapsto> Fin 5]"
  by (simp add: lookupOf_def sparseDaily_def)

lemma sum1: "sumRangeInclusive 31 (lookupOf sparseDaily) ''2024-02-01'' ''2024-03-01'' = Some None"
  by (simp add: sumRangeInclusive_def sumRangeLoop_unfold lk date_ev)


lemma sum2: "sumRangeInclusive 31 (lookupOf sparseDaily) ''2023-02-01'' ''2023-03-02'' = Some None"
  by (simp add: sumRangeInclusive_def sumRangeLoop_unfold lk date_ev)

lemma fixed2_0: "fixed2 0 = 0"
  by (simp add: fixed2_def floor_eq_iff)

lemma label_0103: "formatDDMMYYYY (Some ''2024-03-01'') = ''01-03-2024''"
  by (simp add: formatDDMMYYYY_def isYYYYMMDD_def isDigit_def)

lemma label_short_0103: "formatDDMMYYYY_short (Some ''2024-03-01'') = ''01-03-2024''"
  by (simp add: formatDDMMYYYY_short_def partOr_def)

lemma point_main:
  "rollingPoint 31 (lookupOf sparseDaily) ''2024-03-01'' =
     Some \<lparr>label = ''01-03-2024'', units = Some (Fin 0), prev_year_units = None,
           chart_yoy_pct = None, chart_mom_pct = None\<rparr>"
proof -
  have a: "isoMinusDays ''2024-03-01'' 29 = Some ''2024-02-01''"
    "isoMinusDays ''2024-03-01'' 365 = Some ''2023-03-02''"
    "isoMinusDays ''2023-03-02'' 29 = Some ''2023-02-01''"
    by (simp_all add: date_ev)
  show ?thesis
    by (simp add: rollingPoint_def a sum1 sum2 fixed2_0 label_0103)
qed

lemma next_0103: "isoPlusDays ''2024-03-01'' 1 = Some ''2024-03-02''"
  by (simp add: date_ev)

lemma rolling30_main_zero:
  "dailyForChart_rolling30 31 sparseDaily ''2024-03-01'' ''2024-03-01'' 120 =
     Some [\<lparr>label = ''01-03-2024'', units = Some (Fin 0), prev_year_units = None,
            chart_yoy_pct = None, chart_mom_pct = None\<rparr>]"
  by (simp add: dailyForChart_rolling30_def rollingLoop_unfold point_main next_0103)
     (simp add: sparseDaily_def)

lemma rollingLoop_short_unfold:
  "0 < n \<Longrightarrow> rollingLoop_short n lk cur t out =
     (if cur \<le> t then
        (case rollingPoint_short lk cur of
           None \<Rightarrow> None
         | Some p \<Rightarrow>
             (case isoPlusDays cur 1 of
                None \<Rightarrow> None
              | Some nxt \<Rightarrow> rollingLoop_short (n - 1) lk nxt t (out @ [p])))
      else Some out)"
  by (cases n) (auto split: option.splits)

lemma win1: "window30 (lookupOf sparseDaily) ''2024-03-01'' = Some (Fin 0, 0)"
  by (simp add: window30_def upt_rec lk date_ev)

lemma win2: "window30 (lookupOf sparseDaily) ''2023-03-02'' = Some (Fin 0, 0)"
  by (simp add: window30_def upt_rec lk date_ev)

lemma point_short:
  "rollingPoint_short (lookupOf sparseDaily) ''2024-03-01'' =
     Some \<lparr>label = ''01-03-2024'', units = None, prev_year_units = None,
           chart_yoy_pct = None, chart_mom_pct = None\<rparr>"
proof -
  have a: "isoMinusDays ''2024-03-01'' 365 = Some ''2023-03-02''"
    by (simp add: date_ev)
  show ?thesis
    by (simp add: rollingPoint_short_def a win1 win2 label_short_0103)
qed

lemma short_null:
  "dailyForChart_rolling30_short 2 sparseDaily ''2024-03-01'' ''2024-03-01'' =
     Some [\<lparr>label = ''01-03-2024'', units = None, prev_year_units = None,
            chart_yoy_pct = None, chart_mom_pct = None\<rparr>]"
  by (simp add: dailyForChart_rolling30_short_def rollingLoop_short_unfold point_short next_0103)
     (simp add: sparseDaily_def)


text \<open>
  In general: when the values of the store are finite, no point that the rolling-30
  branch of src/App.tsx emits has \<open>units = null\<close>. In the shorter variant \<open>units\<close> is the
  rounded sum of the values that the store has for the 30 days ending at the point's
  date, and \<open>null\<close> exactly when it has none.
\<close>

lemma jsadd_finite: "isFinite a \<Longrightarrow> isFinite b \<Longrightarrow> isFinite (jsadd a b)"
  by (cases a; cases b) simp_all

lemma sumRangeLoop_finite:
  assumes "\<forall>k v. lk k = Some v \<longrightarrow> isFinite v"
  shows "isFinite (fst acc) \<Longrightarrow> sumRangeLoop n lk cur e acc = Some (s, h) \<Longrightarrow> isFinite s"
proof (induction n arbitrary: cur acc)
  case 0
  then show ?case by simp
next
  case (Suc n)
  show ?case
  proof (cases "cur \<le> e")
    case False
    with Suc.prems show ?thesis by auto
  next
    case True
    with Suc.prems obtain nxt where
      r: "sumRangeLoop n lk nxt e
            (case lk cur of None \<Rightarrow> acc | Some v \<Rightarrow> (jsadd (fst acc) v, True)) = Some (s, h)"
      by (auto split: option.splits)
    have "isFinite (fst (case lk cur of None \<Rightarrow> acc | Some v \<Rightarrow> (jsadd (fst acc) v, True)))"
      using Suc.prems(1) assms by (auto split: option.splits intro: jsadd_finite)
    from Suc.IH [OF this r] show ?thesis .
  qed
qed

lemma sumRangeInclusive_finite:
  assumes "\<forall>k v. lk k = Some v \<longrightarrow> isFinite v"
      and "sumRangeInclusive fuel lk a b = Some (Some c)"
  shows "isFinite c"
proof -
  from assms(2) obtain h where "sumRangeLoop fuel lk a b (Fin 0, False) = Some (c, h)"
    by (auto simp: sumRangeInclusive_def split: if_splits option.splits)
  from sumRangeLoop_finite [OF assms(1) _ this] show ?thesis by simp
qed

lemma round2_finite: "isFinite c \<Longrightarrow> round2 (Some c) \<noteq> None"
  by (cases c) simp_all

lemma rollingPoint_units_never_null:
  assumes "\<forall>k v. lk k = Some v \<longrightarrow> isFinite v" and "rollingPoint fuel lk cur = Some p"
  shows "units p \<noteq> None"
proof -
  from assms(2) obtain start currSum where
    c: "sumRangeInclusive fuel lk start cur = Some currSum" and
    u: "units p = round2 (Some (case currSum of None \<Rightarrow> Fin 0 | Some c \<Rightarrow> c))"
    by (auto simp: rollingPoint_def split: option.splits)
  show ?thesis
  proof (cases currSum)
    case None
    with u show ?thesis by simp
  next
    case (Some v)
    with c sumRangeInclusive_finite [OF assms(1)] have "isFinite v" by blast
    with u Some show ?thesis by (simp add: round2_finite)
  qed
qed

lemma rollingLoop_all:
  assumes "\<And>cur p. rollingPoint fuel lk cur = Some p \<Longrightarrow> Q p"
  shows "\<forall>p \<in> set pts. Q p \<Longrightarrow> rollingLoop n fuel lk cur t pts = Some out \<Longrightarrow> \<forall>p \<in> set out. Q p"
proof (induction n arbitrary: cur pts)
  case 0
  then show ?case by simp
next
  case (Suc n)
  show ?case
  proof (cases "cur \<le> t")
    case False
    with Suc.prems show ?thesis by auto
  next
    case True
    with Suc.prems(2) obtain p nxt where p: "rollingPoint fuel lk cur = Some p" and
      r: "rollingLoop n fuel lk nxt t (pts @ [p]) = Some out"
      by (auto split: option.splits)
    have "\<forall>q \<in> set (pts @ [p]). Q q" using Suc.prems(1) assms [OF p] by simp
    from Suc.IH [OF this r] show ?thesis .
  qed
qed

lemma lookupOf_finite:
  "\<forall>d \<in> set es. isFinite (generation_gwh d) \<Longrightarrow> \<forall>k v. lookupOf es k = Some v \<longrightarrow> isFinite v"
  by (auto simp: lookupOf_def dest!: map_of_SomeD)

lemma rolling30_units_never_null:
  assumes "\<forall>d \<in> set es. isFinite (generation_gwh d)"
      and "dailyForChart_rolling30 fuel es fromIso toIso rangeDays = Some out"
  shows "\<forall>p \<in> set out. units p \<noteq> None"
proof (cases "es = []")
  case True
  with assms(2) show ?thesis by (simp add: dailyForChart_rolling30_def)
next
  case False
  with assms(2) obtain f t where "rollingLoop fuel fuel (lookupOf es) f t [] = Some out"
    by (auto simp: dailyForChart_rolling30_def Let_def split: option.splits if_splits)
  from rollingLoop_all [where Q = "\<lambda>p. units p \<noteq> None",
      OF rollingPoint_units_never_null [OF lookupOf_finite [OF assms(1)]] _ this]
  show ?thesis by simp
qed

lemma windowLoop_sum:
  "windowLoop lk cur js (s, c) = Some (s', c') \<Longrightarrow>
     s' = foldl jsadd s (List.map_filter (windowValue lk cur) js) \<and>
     c' = c + length (List.map_filter (windowValue lk cur) js)"
proof (induction js arbitrary: s c)
  case Nil
  then show ?case by (simp add: List.map_filter_simps)
next
  case (Cons j js)
  from Cons.prems obtain d where d: "isoMinusDays cur j = Some d" and
    r: "windowLoop lk cur js (case lk d of None \<Rightarrow> (s, c) | Some v \<Rightarrow> (jsadd s v, Suc c)) = Some (s', c')"
    by (auto split: option.splits)
  show ?case
  proof (cases "lk d")
    case None
    with r Cons.IH [of s c] d show ?thesis
      by (simp add: List.map_filter_simps windowValue_def)
  next
    case (Some v)
    with r Cons.IH [of "jsadd s v" "Suc c"] d show ?thesis
      by (simp add: List.map_filter_simps windowValue_def)
  qed
qed

lemma rollingPoint_short_units:
  assumes "rollingPoint_short lk cur = Some p"
  shows "units p =
     (if List.map_filter (windowValue lk cur) (map int [0..<30]) = [] then None
      else Some (numFixed2 (jssum (List.map_filter (windowValue lk cur) (map int [0..<30])))))"
proof -
  from assms obtain s c where w: "window30 lk cur = Some (s, c)" and
    u: "units p = (if c \<noteq> 0 then Some (numFixed2 s) else None)"
    by (auto simp: rollingPoint_short_def split: option.splits)
  from w windowLoop_sum [of lk cur "map int [0..<30]" "Fin 0" 0 s c]
  have "s = jssum (List.map_filter (windowValue lk cur) (map int [0..<30]))"
    and "c = length (List.map_filter (windowValue lk cur) (map int [0..<30]))"
    by (simp_all add: window30_def jssum_def)
  with u show ?thesis by auto
qed

text \<open>
  C2: the store holds only 2024-01-01, and the query range is the single day 2024-03-01,
  whose window from 2024-02-01 has no contributing day. The rolling-30 branch of
  src/App.tsx returns, and reports \<open>units\<close> as 0 (\<open>round2(currSum ?? 0)\<close>), where the
  claim says \<open>null\<close>; the shorter variant reports \<open>null\<close>.
\<close>

theorem rolling30_empty_window_reports_zero:
  "dailyForChart_rolling30 31 sparseDaily ''2024-03-01'' ''2024-03-01'' 120 =
     Some [\<lparr>label = ''01-03-2024'', units = Some (Fin 0), prev_year_units = None,
            chart_yoy_pct = None, chart_mom_pct = None\<rparr>] \<and>
   dailyForChart_rolling30_short 2 sparseDaily ''2024-03-01'' ''2024-03-01'' =
     Some [\<lparr>label = ''01-03-2024'', units = None, prev_year_units = None,
            chart_yoy_pct = None, chart_mom_pct = None\<rparr>]"
  using rolling30_main_zero short_null by simp

subsection \<open>Monthly rollup\<close>

lemmas month_ev = toMonthly_def buildMonthDayMap_def buildStep_def monthKey_def dayOfKey_def
  slice_def digitsVal_def digitVal_def sumMonthUpToDay_def sumStep_def comparePct_def
  prevYearMonth_def getYear_def getMonth_def showInt_def addMonths_def dateUTC_def
  normDate.simps daysInMonth_def isLeap_def Let_def showNat.simps digitChar_def padStart0_def
  upt_rec

text \<open>The example of the specification: the comparison uses 40, not 100.\<close>

lemma toMonthly_example:
  "toMonthly exampleDaily =
     [\<lparr>month = ''2024-02'', total_gwh = Fin 100, max_day = 28, yoy_pct = None, mom_pct = None\<rparr>,
      \<lparr>month = ''2024-03'', total_gwh = Fin 50, max_day = 10, yoy_pct = None,
        mom_pct = Some (Fin 25)\<rparr>]"
  by (simp add: exampleDaily_def month_ev growthPct_def safeDiv_def jssub_def)

text \<open>
  The rollup in general. The keys of the store are distinct and each is one that
  \<open>parseISOKey\<close> accepts. Then for every record of the rollup whose year is 1001 or
  later: the total is the sum of the month's values, \<open>max_day\<close> is the highest day
  observed in the month, and \<open>mom_pct\<close> and \<open>yoy_pct\<close> compare the total with the days 1
  to \<open>max_day\<close> of the previous month and of the same month one year earlier, \<open>null\<close> when
  the store has no observation on any of those days. Every month of the store has a
  record.
\<close>

lemma jsadd_zero_left: "jsadd (Fin 0) v = v"
  by (cases v) simp_all

lemma jssum_snoc: "jssum (vs @ [v]) = jsadd (jssum vs) v"
  by (simp add: jssum_def)

lemma build_snoc: "buildMonthDayMap (es @ [d]) = buildStep (buildMonthDayMap es) d"
  by (simp add: buildMonthDayMap_def)

lemma map_of_buildStep:
  "map_of (buildStep mp d) m =
     (if monthKey (date d) = m then
        Some (let rec = (case map_of mp m of
                           None \<Rightarrow> \<lparr>total = Fin 0, maxDay = 0, byDay = []\<rparr> | Some r \<Rightarrow> r)
              in \<lparr>total = jsadd (total rec) (generation_gwh d),
                  maxDay = max (maxDay rec) (dayOfKey (date d)),
                  byDay = AList.update (dayOfKey (date d))
                      (jsadd (orZero (map_of (byDay rec) (dayOfKey (date d)))) (generation_gwh d))
                      (byDay rec)\<rparr>)
      else map_of mp m)"
  by (auto simp: buildStep_def Let_def update_conv')

lemma dayAcc_snoc:
  "dayAcc (es @ [d]) m day =
     (if monthKey (date d) = m \<and> dayOfKey (date d) = day
      then Some (jsadd (orZero (dayAcc es m day)) (generation_gwh d)) else dayAcc es m day)"
  by (simp add: dayAcc_def)

lemma monthValues_snoc:
  "monthValues (es @ [d]) m =
     (if monthKey (date d) = m then monthValues es m @ [generation_gwh d] else monthValues es m)"
  by (simp add: monthValues_def)

lemma monthDays_snoc:
  "monthDays (es @ [d]) m =
     (if monthKey (date d) = m then monthDays es m @ [dayOfKey (date d)] else monthDays es m)"
  by (simp add: monthDays_def)

lemma dayAcc_none: "monthValues es m = [] \<Longrightarrow> dayAcc es m day = None"
  by (induction es rule: rev_induct) (auto simp: monthValues_snoc dayAcc_snoc dayAcc_def split: if_splits)

lemma monthDays_none: "monthValues es m = [] \<Longrightarrow> monthDays es m = []"
  by (simp add: monthValues_def monthDays_def)

lemma build_invariant:
  "(case map_of (buildMonthDayMap es) m of
      None \<Rightarrow> monthValues es m = []
    | Some rec \<Rightarrow> monthValues es m \<noteq> [] \<and> total rec = jssum (monthValues es m) \<and>
        maxDay rec = foldl max 0 (monthDays es m) \<and>
        (\<forall>day. map_of (byDay rec) day = dayAcc es m day))"
proof (induction es rule: rev_induct)
  case Nil
  then show ?case by (simp add: buildMonthDayMap_def monthValues_def)
next
  case (snoc d es)
  show ?case
  proof (cases "monthKey (date d) = m")
    case False
    with snoc show ?thesis
      by (auto simp: build_snoc map_of_buildStep monthValues_snoc monthDays_snoc dayAcc_snoc
          split: option.splits)
  next
    case True
    show ?thesis
    proof (cases "map_of (buildMonthDayMap es) m")
      case None
      with snoc have e: "monthValues es m = []" by simp
      show ?thesis
        using True None e dayAcc_none [OF e] monthDays_none [OF e]
        by (simp add: build_snoc map_of_buildStep monthValues_snoc monthDays_snoc dayAcc_snoc
            jssum_def update_conv')
    next
      case (Some rec)
      with snoc have i: "total rec = jssum (monthValues es m)"
        "maxDay rec = foldl max 0 (monthDays es m)"
        "\<And>day. map_of (byDay rec) day = dayAcc es m day" by simp_all
      show ?thesis
        using True Some i
        by (simp add: build_snoc map_of_buildStep monthValues_snoc monthDays_snoc dayAcc_snoc
            jssum_def update_conv' Let_def)
    qed
  qed
qed

lemma foldl_sumStep:
  "foldl (sumStep bd) (s, h) ds =
     (foldl jsadd s (List.map_filter (map_of bd) ds), h \<or> List.map_filter (map_of bd) ds \<noteq> [])"
proof (induction ds arbitrary: s h)
  case Nil
  then show ?case by (simp add: List.map_filter_simps)
next
  case (Cons day ds)
  then show ?case
    by (cases "map_of bd day") (simp_all add: sumStep_def List.map_filter_simps)
qed

lemma sumMonthUpToDay_Some:
  "sumMonthUpToDay (Some r) k =
     (if List.map_filter (map_of (byDay r)) [1..<Suc k] = [] then None
      else Some (jssum (List.map_filter (map_of (byDay r)) [1..<Suc k])))"
  by (simp add: sumMonthUpToDay_def foldl_sumStep jssum_def del: upt_Suc)

lemma digitChar_props: "n < 10 \<Longrightarrow> digitVal (digitChar n) = n \<and> isDigit (digitChar n)"
proof -
  assume "n < 10"
  then have "n < Suc (Suc (Suc (Suc (Suc (Suc (Suc (Suc (Suc (Suc 0)))))))))" by simp
  then show ?thesis
    by (auto simp: less_Suc_eq digitVal_def digitChar_def isDigit_def)
qed

lemma digitVal_digitChar: "n < 10 \<Longrightarrow> digitVal (digitChar n) = n"
  by (simp add: digitChar_props)

lemma isDigit_digitChar: "n < 10 \<Longrightarrow> isDigit (digitChar n)"
  by (simp add: digitChar_props)

lemma showNat_two: "10 \<le> n \<Longrightarrow> n < 100 \<Longrightarrow> showNat n = [digitChar (n div 10), digitChar (n mod 10)]"
  by (subst showNat.simps) (simp add: showNat_small)

lemma pad2_shape:
  assumes "n < 100"
  shows "padStart0 2 (showNat n) = [digitChar (n div 10), digitChar (n mod 10)]"
proof (cases "n < 10")
  case True
  then show ?thesis by (simp add: showNat_small padStart0_def digitChar_def)
next
  case False
  with assms show ?thesis by (simp add: showNat_two padStart0_def)
qed

lemma digitsVal_pad2: "n < 100 \<Longrightarrow> digitsVal (padStart0 2 (showNat n)) = n"
  by (simp add: pad2_shape digitsVal_def digitVal_digitChar)

lemma key_of_month_day:
  assumes "isYYYYMMDD k" "length m = 7" "day < 100"
  shows "(monthKey k = m \<and> dayOfKey k = day) \<longleftrightarrow> k = dateKey m day"
proof -
  from assms(1) obtain y1 y2 y3 y4 m1 m2 d1 d2 where
    k: "k = [y1, y2, y3, y4, CHR ''-'', m1, m2, CHR ''-'', d1, d2]" and
    dg: "isDigit d1" "isDigit d2"
    unfolding isYYYYMMDD_iff by blast
  have mk: "monthKey k = [y1, y2, y3, y4, CHR ''-'', m1, m2]"
    and dk: "dayOfKey k = digitsVal [d1, d2]"
    by (simp_all add: k monthKey_def dayOfKey_def slice_def)
  show ?thesis
  proof
    assume a: "monthKey k = m \<and> dayOfKey k = day"
    then have "padStart0 2 (showNat day) = [d1, d2]" using dk show2 [OF dg] by simp
    with a mk show "k = dateKey m day" by (simp add: dateKey_def k)
  next
    assume a: "k = dateKey m day"
    then have "k = m @ CHR ''-'' # padStart0 2 (showNat day)" by (simp add: dateKey_def)
    then have t: "take 7 k = m" and d: "drop 8 k = padStart0 2 (showNat day)"
      using assms(2) by simp_all
    have "monthKey k = m" using t by (simp add: monthKey_def slice_def)
    moreover have "dayOfKey k = day"
    proof -
      have "length (padStart0 2 (showNat day)) = 2" using assms(3) by (simp add: pad2_shape)
      then have "slice 8 10 k = padStart0 2 (showNat day)" using d by (simp add: slice_def)
      then show ?thesis using assms(3) by (simp add: dayOfKey_def digitsVal_pad2)
    qed
    ultimately show "monthKey k = m \<and> dayOfKey k = day" by simp
  qed
qed

lemma lookupOf_snoc:
  "lookupOf (es @ [d]) k = (if date d = k then Some (generation_gwh d) else lookupOf es k)"
  by (simp add: lookupOf_def)

lemma lookupOf_None: "k \<notin> date ` set es \<Longrightarrow> lookupOf es k = None"
  by (simp add: lookupOf_def map_of_eq_None_iff image_image)

lemma dayAcc_lookup:
  assumes "\<forall>d \<in> set es. isYYYYMMDD (date d)" "distinct (map date es)" "length m = 7" "day < 100"
  shows "dayAcc es m day = lookupOf es (dateKey m day)"
  using assms(1,2)
proof (induction es rule: rev_induct)
  case Nil
  then show ?case by (simp add: dayAcc_def lookupOf_def)
next
  case (snoc d es)
  then have IH: "dayAcc es m day = lookupOf es (dateKey m day)"
    and wf: "isYYYYMMDD (date d)" and nin: "date d \<notin> date ` set es"
    by auto
  note K = key_of_month_day [OF wf assms(3,4)]
  show ?case
  proof (cases "date d = dateKey m day")
    case True
    then have "lookupOf es (dateKey m day) = None" using nin lookupOf_None by metis
    with IH True K show ?thesis
      by (simp add: dayAcc_snoc lookupOf_snoc jsadd_zero_left)
  next
    case False
    with K have nk: "\<not> (monthKey (date d) = m \<and> dayOfKey (date d) = day)" by blast
    show ?thesis unfolding dayAcc_snoc lookupOf_snoc using nk False IH by auto
  qed
qed

lemma map_filter_cong_set:
  "\<forall>x \<in> set xs. f x = g x \<Longrightarrow> List.map_filter f xs = List.map_filter g xs"
  by (induction xs) (auto simp: List.map_filter_simps split: option.splits)

lemma map_filter_all_None:
  "\<forall>x \<in> set xs. f x = None \<Longrightarrow> List.map_filter f xs = []"
  by (induction xs) (auto simp: List.map_filter_simps split: option.splits)

lemma comparePct_comparable:
  assumes wf: "\<forall>d \<in> set es. isYYYYMMDD (date d)" and dist: "distinct (map date es)"
      and len: "length key = 7" and k: "k < 100"
  shows "comparePct (buildMonthDayMap es) key tot k = comparable (lookupOf es) key k tot"
proof -
  have lk: "\<And>day. day \<in> set [1..<Suc k] \<Longrightarrow> dayAcc es key day = lookupOf es (dateKey key day)"
  proof -
    fix day assume "day \<in> set [1..<Suc k]"
    then have "day < 100" using k by auto
    from dayAcc_lookup [OF wf dist len this] show "dayAcc es key day = lookupOf es (dateKey key day)" .
  qed
  note inv = build_invariant [of es key]
  show ?thesis
  proof (cases "map_of (buildMonthDayMap es) key")
    case None
    with inv have "monthValues es key = []" by simp
    then have "\<And>day. dayAcc es key day = None" by (rule dayAcc_none)
    with lk have "\<forall>day \<in> set [1..<Suc k]. lookupOf es (dateKey key day) = None" by simp
    then have "List.map_filter (\<lambda>day. lookupOf es (dateKey key day)) [1..<Suc k] = []"
      by (rule map_filter_all_None)
    with None show ?thesis
      by (simp add: comparePct_def sumMonthUpToDay_def comparable_def del: upt_Suc)
  next
    case (Some rec)
    with inv have "\<And>day. map_of (byDay rec) day = dayAcc es key day" by simp
    with lk have "\<forall>day \<in> set [1..<Suc k].
        map_of (byDay rec) day = lookupOf es (dateKey key day)" by simp
    then have "List.map_filter (map_of (byDay rec)) [1..<Suc k] =
        List.map_filter (\<lambda>day. lookupOf es (dateKey key day)) [1..<Suc k]"
      by (rule map_filter_cong_set)
    with Some show ?thesis
      by (simp add: comparePct_def sumMonthUpToDay_Some comparable_def Let_def del: upt_Suc)
  qed
qed

lemma foldl_max_Max: "foldl max (0::nat) xs = (if xs = [] then 0 else Max (set xs))"
proof (induction xs rule: rev_induct)
  case Nil
  then show ?case by simp
next
  case (snoc x xs)
  then show ?case by (cases "xs = []") (simp_all add: max.commute)
qed

lemma toMonthly_member:
  assumes "r \<in> set (toMonthly es)"
  shows "\<exists>rec. map_of (buildMonthDayMap es) (month r) = Some rec \<and>
           total_gwh r = total rec \<and> max_day r = maxDay rec \<and>
           yoy_pct r = comparePct (buildMonthDayMap es) (prevYearMonth (month r)) (total rec) (maxDay rec) \<and>
           mom_pct r = comparePct (buildMonthDayMap es) (addMonths (month r) (- 1)) (total rec) (maxDay rec)"
proof -
  let ?mp = "buildMonthDayMap es"
  from assms obtain m where m: "m \<in> fst ` set ?mp" and
    r: "r = (let rec = (case map_of ?mp m of
                              None \<Rightarrow> \<lparr>total = Fin 0, maxDay = 0, byDay = []\<rparr>
                            | Some r \<Rightarrow> r)
                 in \<lparr>month = m, total_gwh = total rec, max_day = maxDay rec,
                     yoy_pct = comparePct ?mp (prevYearMonth m) (total rec) (maxDay rec),
                     mom_pct = comparePct ?mp (addMonths m (- 1)) (total rec) (maxDay rec)\<rparr>)"
    unfolding toMonthly_def Let_def by auto
  from m obtain rec where "map_of ?mp m = Some rec"
    by (meson map_of_eq_None_iff not_Some_eq)
  with r show ?thesis by (simp add: Let_def)
qed

lemma showNat_len3: "100 \<le> n \<Longrightarrow> n < 1000 \<Longrightarrow> length (showNat n) = 3"
  by (subst showNat.simps) (simp add: showNat_two)

lemma showNat_len4: "1000 \<le> n \<Longrightarrow> n < 10000 \<Longrightarrow> length (showNat n) = 4"
  by (subst showNat.simps) (simp add: showNat_len3)

lemma pad4_id: "1000 \<le> n \<Longrightarrow> n < 10000 \<Longrightarrow> padStart0 4 (showNat n) = showNat n"
  by (simp add: padStart0_def showNat_len4)

lemma pad2_len: "n < 100 \<Longrightarrow> length (padStart0 2 (showNat n)) = 2"
  by (simp add: pad2_shape)

lemma digitsVal4_lt:
  assumes "isDigit a" "isDigit b" "isDigit c" "isDigit d"
  shows "digitsVal [a, b, c, d] < 10000"
  using digitVal_lt [OF assms(1)] digitVal_lt [OF assms(2)] digitVal_lt [OF assms(3)]
    digitVal_lt [OF assms(4)]
  by (simp add: digitsVal_def)

lemma showInt_nat: "showInt (int n) = showNat n"
  by (simp add: showInt_def)

lemma normDate_prev_month:
  assumes "1 \<le> m" "m \<le> 12"
  shows "normDate y (m - 2) 1 = (if m = 1 then (y - 1, 11, 1) else (y, m - 2, 1))"
proof (cases "m = 1")
  case True
  have "normDate y (- 1) 1 = normDate (y + (- 1) div 12) ((- 1) mod 12) 1"
    by (subst normDate.simps) simp
  also have "\<dots> = normDate (y - 1) 11 1" by simp
  also have "\<dots> = (y - 1, 11, 1)"
    by (rule normDate_id) (simp_all add: daysInMonth_def)
  finally show ?thesis using True by simp
next
  case False
  with assms have "normDate y (m - 2) 1 = (y, m - 2, 1)"
    by (intro normDate_id) (simp_all add: daysInMonth_def)
  with False show ?thesis by simp
qed

lemma month_keys:
  assumes k: "parseISOKey k = Some k" and yr: "1001 \<le> getYear (monthKey k)"
  shows "addMonths (monthKey k) (- 1) = prevMonthKey (monthKey k)"
    and "prevYearMonth (monthKey k) = prevYearKey (monthKey k)"
    and "length (prevMonthKey (monthKey k)) = 7"
    and "length (prevYearKey (monthKey k)) = 7"
    and "dayOfKey k \<le> 31"
proof -
  from k have iso: "isYYYYMMDD k"
    by (auto simp: parseISOKey_def split: if_splits)
  from k parseISOKey_iso [OF iso] have rng:
    "1 \<le> digitsVal (slice 5 7 k)" "digitsVal (slice 5 7 k) \<le> 12" "digitsVal (slice 8 10 k) \<le> 31"
    by (auto split: if_splits)
  from iso obtain y1 y2 y3 y4 m1 m2 d1 d2 where
    ks: "k = [y1, y2, y3, y4, CHR ''-'', m1, m2, CHR ''-'', d1, d2]" and
    dg: "isDigit y1" "isDigit y2" "isDigit y3" "isDigit y4" "isDigit m1" "isDigit m2"
    unfolding isYYYYMMDD_iff by blast
  define M where "M = monthKey k"
  define y where "y = digitsVal [y1, y2, y3, y4]"
  define m where "m = digitsVal [m1, m2]"
  have Ms: "M = [y1, y2, y3, y4, CHR ''-'', m1, m2]"
    by (simp add: M_def ks monthKey_def slice_def)
  have gy: "getYear M = y" and gm: "getMonth M = m"
    by (simp_all add: Ms getYear_def getMonth_def slice_def y_def m_def)
  have m_rng: "1 \<le> m" "m \<le> 12" using rng by (simp_all add: ks slice_def m_def)
  have y_rng: "1001 \<le> y" "y < 10000"
    using yr gy digitsVal4_lt [OF dg(1-4)] by (simp_all add: M_def y_def)
  have sp: "splitOn (CHR ''-'') M = [[y1, y2, y3, y4], [m1, m2]]"
    using dg by (simp add: Ms digit_not_dash)
  have noq: "\<not> (0 \<le> int y \<and> int y \<le> 99)" using y_rng by simp
  have nd: "normDate (int y) (int m - 2) 1 =
      (if int m = 1 then (int y - 1, 11, 1) else (int y, int m - 2, 1))"
    using m_rng by (intro normDate_prev_month) simp_all
  have am: "addMonths M (- 1) =
      (if m = 1 then showNat (y - 1) @ ''-12''
       else showNat y @ ''-'' @ padStart0 2 (showNat (m - 1)))"
  proof (cases "m = 1")
    case True
    have "int y - 1 = int (y - 1)" using y_rng by simp
    then have "showInt (int y - 1) = showNat (y - 1)" by (simp only: showInt_nat)
    moreover have "padStart0 2 (showInt 12) = ''12''"
      by (simp add: showInt_def padStart0_def showNat.simps digitChar_def)
    ultimately show ?thesis
      using True nd noq
      by (simp add: addMonths_def sp dateUTC_def y_def [symmetric] m_def [symmetric])
  next
    case False
    with m_rng have "int m - 2 + 1 = int (m - 1)" by simp
    then have "showInt (int m - 2 + 1) = showNat (m - 1)" by (simp only: showInt_nat)
    then show ?thesis
      using False nd noq
      by (simp add: addMonths_def sp dateUTC_def y_def [symmetric] m_def [symmetric] showInt_nat)
  qed
  have p4: "padStart0 4 (showNat y) = showNat y" "padStart0 4 (showNat (y - 1)) = showNat (y - 1)"
    using y_rng by (simp_all add: pad4_id)
  have l4: "length (showNat y) = 4" "length (showNat (y - 1)) = 4"
    using y_rng by (simp_all add: showNat_len4)
  have pm: "prevMonthKey M =
      (if m = 1 then showNat (y - 1) @ ''-12''
       else showNat y @ ''-'' @ padStart0 2 (showNat (m - 1)))"
    using p4 by (simp add: prevMonthKey_def gy gm)
  show "addMonths (monthKey k) (- 1) = prevMonthKey (monthKey k)"
    using am pm by (simp add: M_def)
  have "int y - 1 = int (y - 1)" using y_rng by simp
  then have "showInt (int y - 1) = showNat (y - 1)" by (simp only: showInt_nat)
  then show "prevYearMonth (monthKey k) = prevYearKey (monthKey k)"
    using gy gm p4 by (simp add: prevYearMonth_def prevYearKey_def M_def [symmetric])
  show "length (prevMonthKey (monthKey k)) = 7"
    using pm l4 m_rng by (simp add: M_def [symmetric] pad2_len)
  show "length (prevYearKey (monthKey k)) = 7"
    using gy gm p4 l4 m_rng by (simp add: prevYearKey_def M_def [symmetric] pad2_len)
  show "dayOfKey k \<le> 31" using rng by (simp add: dayOfKey_def)
qed

lemma toMonthly_month_to_date:
  assumes wf: "\<forall>d \<in> set es. parseISOKey (date d) = Some (date d)"
      and dist: "distinct (map date es)"
      and r: "r \<in> set (toMonthly es)"
      and yr: "1001 \<le> getYear (month r)"
  shows "total_gwh r = jssum (monthValues es (month r)) \<and>
         max_day r = Max (set (monthDays es (month r))) \<and>
         mom_pct r = comparable (lookupOf es) (prevMonthKey (month r)) (max_day r) (total_gwh r) \<and>
         yoy_pct r = comparable (lookupOf es) (prevYearKey (month r)) (max_day r) (total_gwh r)"
proof -
  let ?M = "month r"
  from toMonthly_member [OF r] obtain rec where
    rec: "map_of (buildMonthDayMap es) ?M = Some rec" and
    t: "total_gwh r = total rec" and k: "max_day r = maxDay rec" and
    yo: "yoy_pct r = comparePct (buildMonthDayMap es) (prevYearMonth ?M) (total rec) (maxDay rec)" and
    mo: "mom_pct r = comparePct (buildMonthDayMap es) (addMonths ?M (- 1)) (total rec) (maxDay rec)"
    by blast
  from build_invariant [of es ?M] rec have
    ne: "monthValues es ?M \<noteq> []" and tot: "total rec = jssum (monthValues es ?M)" and
    mx: "maxDay rec = foldl max 0 (monthDays es ?M)"
    by simp_all
  from ne have dne: "monthDays es ?M \<noteq> []" by (simp add: monthValues_def monthDays_def)
  from ne obtain d where d: "d \<in> set es" "monthKey (date d) = ?M"
    by (auto simp: monthValues_def filter_empty_conv)
  from wf d have pk: "parseISOKey (date d) = Some (date d)" by blast
  from yr d have yd: "1001 \<le> getYear (monthKey (date d))" by simp
  note MK = month_keys [OF pk yd, unfolded d(2)]
  have iso: "\<forall>d \<in> set es. isYYYYMMDD (date d)"
    using wf by (auto simp: parseISOKey_def split: if_splits)
  have days: "\<forall>x \<in> set (monthDays es ?M). x \<le> 31"
  proof
    fix x assume "x \<in> set (monthDays es ?M)"
    then obtain e where e: "e \<in> set es" "monthKey (date e) = ?M" "x = dayOfKey (date e)"
      by (auto simp: monthDays_def)
    from wf e have pe: "parseISOKey (date e) = Some (date e)" by blast
    from yr e have ye: "1001 \<le> getYear (monthKey (date e))" by simp
    from month_keys(5) [OF pe ye] e show "x \<le> 31" by simp
  qed
  have mxM: "maxDay rec = Max (set (monthDays es ?M))"
    using mx dne by (simp add: foldl_max_Max)
  have "Max (set (monthDays es ?M)) \<le> 31"
    using days dne by simp
  then have k100: "maxDay rec < 100" using mxM by simp
  have mom: "mom_pct r = comparable (lookupOf es) (prevMonthKey ?M) (maxDay rec) (total rec)"
    using mo MK(1) comparePct_comparable [OF iso dist MK(3) k100] by simp
  have yoy: "yoy_pct r = comparable (lookupOf es) (prevYearKey ?M) (maxDay rec) (total rec)"
    using yo MK(2) comparePct_comparable [OF iso dist MK(4) k100] by simp
  show ?thesis using t k tot mxM mom yoy by simp
qed

lemma toMonthly_has_month:
  assumes "d \<in> set es"
  shows "\<exists>r \<in> set (toMonthly es). month r = monthKey (date d)"
proof -
  let ?M = "monthKey (date d)" and ?mp = "buildMonthDayMap es"
  have "monthValues es ?M \<noteq> []"
    using assms by (auto simp: monthValues_def filter_empty_conv)
  with build_invariant [of es ?M] have "map_of ?mp ?M \<noteq> None"
    by (auto split: option.splits)
  then have "?M \<in> fst ` set ?mp" by (simp add: map_of_eq_None_iff)
  then have "?M \<in> set (sort (map fst ?mp))" by simp
  then show ?thesis unfolding toMonthly_def Let_def by force
qed

text \<open>
  C1: the store holds the 5th of March of the years 999 and 1000. For March 1000 the
  rollup looks up the month one year earlier under the key \<open>999-03\<close>, the year written
  without its leading zero, and finds nothing: \<open>yoy_pct\<close> is \<open>null\<close>, where the claim
  gives \<open>growthPct(20, 10) = 100\<close>. The previous month of January 1000 is looked up
  under \<open>999-12\<close> in the same way.
\<close>

theorem toMonthly_misses_year_before_1000:
  "toMonthly earlyDaily =
     [\<lparr>month = ''0999-03'', total_gwh = Fin 10, max_day = 5, yoy_pct = None, mom_pct = None\<rparr>,
      \<lparr>month = ''1000-03'', total_gwh = Fin 20, max_day = 5, yoy_pct = None, mom_pct = None\<rparr>] \<and>
   prevYearMonth ''1000-03'' = ''999-03'' \<and>
   addMonths ''1000-01'' (- 1) = ''999-12'' \<and>
   growthPct (Fin 20) (Some (Fin 10)) = Some (Fin 100)"
  by (simp add: earlyDaily_def month_ev growthPct_def safeDiv_def jssub_def)

end
